theory Spec2Isabelle
  imports Main
begin

section \<open>Configuration (module \<open>src/config\<close>)\<close>

text \<open>
  Only the settings the connection manager, the routes and the error handler read are
  kept. \<open>process.env.X || d\<close> takes the default \<open>d\<close> when the variable is unset or
  the empty string.
\<close>

record config =
  server_environment :: string
  health_enableDetailedChecks :: bool

definition or_default :: "string option \<Rightarrow> string \<Rightarrow> string" where
  "or_default v d = (case v of None \<Rightarrow> d | Some s \<Rightarrow> (if s = [] then d else s))"

definition load_config :: "string option \<Rightarrow> string option \<Rightarrow> config" where
  "load_config NODE_ENV HEALTH_DETAILED =
     \<lparr> server_environment = or_default NODE_ENV ''development'',
       health_enableDetailedChecks = (HEALTH_DETAILED = Some ''true'' \<or> True) \<rparr>"

definition isDevelopment :: "config \<Rightarrow> bool" where
  "isDevelopment cfg = (server_environment cfg = ''development'')"

definition isProduction :: "config \<Rightarrow> bool" where
  "isProduction cfg = (server_environment cfg = ''production'')"

section \<open>Connection manager (class \<open>DatabaseManager\<close>, module \<open>src/database\<close>)\<close>

text \<open>
  The manager's fields are the record \<open>DatabaseManager\<close>. The process around it holds
  the callbacks handed to \<open>setTimeout\<close>: every one of them is \<open>() => this.connect()\<close>,
  so a pending callback is represented by its delay in milliseconds. \<open>reconnects\<close>
  counts the calls of \<open>connect()\<close> made by such callbacks (the call count a stub of
  \<open>connect\<close> would report, less the first call made by \<open>initializeApp\<close>).
  Console output is not part of the state.
\<close>

record DatabaseManager =
  isConnected :: bool
  connectionState :: string
  connectionAttempts :: nat
  maxRetries :: nat
  retryDelay :: nat

record world =
  db :: DatabaseManager
  timers :: "nat list"
  reconnects :: nat

definition new_DatabaseManager :: DatabaseManager where
  "new_DatabaseManager =
     \<lparr> isConnected = False, connectionState = ''disconnected'', connectionAttempts = 0,
       maxRetries = 5, retryDelay = 5000 \<rparr>"

definition boot :: world where
  "boot = \<lparr> db = new_DatabaseManager, timers = [], reconnects = 0 \<rparr>"

text \<open>
  \<open>scheduleReconnection\<close>: the guard returns before the counter is touched; otherwise
  the counter is incremented and one callback is queued with \<open>retryDelay\<close>.
\<close>

definition scheduleReconnection :: "world \<Rightarrow> world" where
  "scheduleReconnection w =
     (if connectionAttempts (db w) \<ge> maxRetries (db w) then w
      else w \<lparr> db := (db w) \<lparr> connectionAttempts := connectionAttempts (db w) + 1 \<rparr>,
               timers := timers w @ [retryDelay (db w)] \<rparr>)"

text \<open>
  The driver (mongoose) is outside the repository. It reaches the manager through the
  four events registered in \<open>setupEventHandlers\<close> and through the promises returned by
  \<open>mongoose.connect\<close> and \<open>mongoose.connection.close\<close>. A driver call is therefore
  described by what the driver did during it: the events it emitted while the caller was
  waiting, and the rejection it ended with, if any.
\<close>

datatype driver_event = EvConnected | EvError string | EvDisconnected | EvReconnected

record driver_call =
  emitted :: "driver_event list"
  rejection :: "string option"

fun on_event :: "config \<Rightarrow> world \<Rightarrow> driver_event \<Rightarrow> world" where
  "on_event cfg w EvConnected =
     w \<lparr> db := (db w) \<lparr> isConnected := True, connectionState := ''connected'',
                         connectionAttempts := 0 \<rparr> \<rparr>"
| "on_event cfg w (EvError msg) =
     w \<lparr> db := (db w) \<lparr> isConnected := False, connectionState := ''error'' \<rparr> \<rparr>"
| "on_event cfg w EvDisconnected =
     (let w1 = w \<lparr> db := (db w) \<lparr> isConnected := False,
                                  connectionState := ''disconnected'' \<rparr> \<rparr>
      in if isProduction cfg \<and> connectionAttempts (db w1) < maxRetries (db w1)
         then scheduleReconnection w1 else w1)"
| "on_event cfg w EvReconnected =
     w \<lparr> db := (db w) \<lparr> isConnected := True, connectionState := ''connected'' \<rparr> \<rparr>"

definition deliver :: "config \<Rightarrow> driver_event list \<Rightarrow> world \<Rightarrow> world" where
  "deliver cfg evs w = foldl (on_event cfg) w evs"

text \<open>
  \<open>connect\<close> and \<open>disconnect\<close> return \<open>Inr\<close> of the new state when the promise
  resolves and \<open>Inl\<close> of the message when an exception leaves the function. The body of
  each \<open>try\<close> is the driver call; the \<open>catch\<close> branch is the \<open>Some\<close> case.
\<close>

definition connect :: "config \<Rightarrow> driver_call \<Rightarrow> world \<Rightarrow> string + world" where
  "connect cfg c w =
     (let w1 = deliver cfg (emitted c) w in
      case rejection c of
        None \<Rightarrow> Inr w1
      | Some msg \<Rightarrow>
          (let w2 = w1 \<lparr> db := (db w1) \<lparr> isConnected := False,
                                        connectionState := ''error'' \<rparr> \<rparr>
           in if isDevelopment cfg then Inr w2 else Inr (scheduleReconnection w2)))"

definition disconnect :: "config \<Rightarrow> driver_call \<Rightarrow> world \<Rightarrow> string + world" where
  "disconnect cfg c w =
     (let w1 = deliver cfg (emitted c) w in
      case rejection c of
        None \<Rightarrow> Inr w1
      | Some msg \<Rightarrow> Inr w1)"

text \<open>
  What happens to the process after start-up is a list of steps: a pending timer fires
  and its callback calls \<open>connect()\<close> (nothing happens when no timer is pending), or the
  driver emits an event on its own. The callback writes no field of the manager before
  its attempt is settled, so the firing and the attempt are one step. An exception
  leaving a timer callback would end the run.
\<close>

datatype step = TimerFires driver_call | DriverEmits driver_event

fun exec :: "config \<Rightarrow> step \<Rightarrow> world \<Rightarrow> string + world" where
  "exec cfg (TimerFires c) w =
     (case timers w of
        [] \<Rightarrow> Inr w
      | d # ds \<Rightarrow> connect cfg c (w \<lparr> timers := ds, reconnects := reconnects w + 1 \<rparr>))"
| "exec cfg (DriverEmits e) w = Inr (on_event cfg w e)"

fun run :: "config \<Rightarrow> step list \<Rightarrow> world \<Rightarrow> string + world" where
  "run cfg [] w = Inr w"
| "run cfg (s # ss) w = (case exec cfg s w of Inl e \<Rightarrow> Inl e | Inr w' \<Rightarrow> run cfg ss w')"

text \<open>
  A driver call fails when it ends in a rejection and never announced a connection; a
  step belongs to a run of consecutive failures when it is such a call or an event other
  than \<open>connected\<close>.
\<close>

definition fails :: "driver_call \<Rightarrow> bool" where
  "fails c = (rejection c \<noteq> None \<and> EvConnected \<notin> set (emitted c))"

fun failing_step :: "step \<Rightarrow> bool" where
  "failing_step (TimerFires c) = fails c"
| "failing_step (DriverEmits e) = (e \<noteq> EvConnected)"


text \<open>
  \<open>initializeApp\<close> makes the first call of \<open>connect()\<close> on the freshly constructed
  manager; the steps follow.
\<close>

definition start :: "config \<Rightarrow> driver_call \<Rightarrow> step list \<Rightarrow> string + world" where
  "start cfg c0 ss =
     (case connect cfg c0 boot of Inl e \<Rightarrow> Inl e | Inr w0 \<Rightarrow> run cfg ss w0)"

text \<open>Named configurations, driver calls and manager states used in the examples.\<close>

definition production :: config where
  "production = load_config (Some ''production'') None"

definition development :: config where
  "development = load_config None None"

definition refused :: driver_call where
  "refused = \<lparr> emitted = [], rejection = Some ''connect ECONNREFUSED'' \<rparr>"

definition exhausted :: world where
  "exhausted =
     \<lparr> db = \<lparr> isConnected = False, connectionState = ''error'', connectionAttempts = 5,
              maxRetries = 5, retryDelay = 5000 \<rparr>,
       timers = [], reconnects = 5 \<rparr>"

definition online :: world where
  "online =
     \<lparr> db = \<lparr> isConnected = True, connectionState = ''connected'', connectionAttempts = 0,
              maxRetries = 5, retryDelay = 5000 \<rparr>,
       timers = [], reconnects = 0 \<rparr>"

definition offline :: world where
  "offline =
     \<lparr> db = \<lparr> isConnected = False, connectionState = ''error'', connectionAttempts = 0,
              maxRetries = 5, retryDelay = 5000 \<rparr>,
       timers = [], reconnects = 0 \<rparr>"

section \<open>JSON values, requests and responses\<close>

text \<open>
  A JSON object is a list of properties in insertion order. \<open>JDate\<close> is a timestamp in
  milliseconds (an ISO date on the wire, a \<open>Date\<close> in a stored document). A
  \<open>request\<close> is a request as the route table receives it: the common middleware has
  passed it on, the path is split at the slashes and \<open>body\<close> is \<open>req.body\<close>, set by
  the body parsers.
\<close>

datatype json =
  JNull | JBool bool | JNum int | JStr string | JDate int
  | JArr "json list" | JObj "(string \<times> json) list"

type_synonym fields = "(string \<times> json) list"

record request =
  http_method :: string
  path :: "string list"
  body :: json

record response =
  status :: nat
  content :: json

fun get_prop :: "string \<Rightarrow> json \<Rightarrow> json option" where
  "get_prop k (JObj kvs) = map_of kvs k"
| "get_prop k _ = None"

text \<open>\<open>obj[k] = v\<close>: an existing property keeps its place, a new one goes last.\<close>

fun assign :: "string \<Rightarrow> json \<Rightarrow> fields \<Rightarrow> fields" where
  "assign k v [] = [(k, v)]"
| "assign k v ((k', v') # kvs) =
     (if k = k' then (k, v) # kvs else (k', v') # assign k v kvs)"

text \<open>A property whose value is \<open>undefined\<close> is left out of the serialised object.\<close>

definition opt_prop :: "string \<Rightarrow> ('a \<Rightarrow> json) \<Rightarrow> 'a option \<Rightarrow> fields" where
  "opt_prop k f v = (case v of None \<Rightarrow> [] | Some x \<Rightarrow> [(k, f x)])"

section \<open>Middleware (module \<open>src/middleware\<close>)\<close>

text \<open>
  \<open>checkDatabaseConnection\<close> either answers (\<open>Some\<close>) or calls \<open>next()\<close> (\<open>None\<close>).
  \<open>ts\<close> is \<open>new Date().toISOString()\<close>.
\<close>

definition checkDatabaseConnection :: "world \<Rightarrow> string \<Rightarrow> response option" where
  "checkDatabaseConnection w ts =
     (if \<not> isConnected (db w) then
        Some \<lparr> status = 503,
               content = JObj [(''success'', JBool False),
                 (''message'', JStr ''Database service unavailable. Please try again later.''),
                 (''error'', JStr ''MongoDB connection not established''),
                 (''timestamp'', JStr ts)] \<rparr>
      else None)"

text \<open>
  The error objects \<open>errorHandler\<close> looks at: \<open>name\<close>, \<open>message\<close>, \<open>stack\<close>, the
  numeric \<open>code\<close> of a driver error and the \<open>errors\<close> table of a validation error (path
  and message of each failed validator). \<open>err_errors\<close> is \<open>None\<close> for an error object
  without an \<open>errors\<close> property.
\<close>

record js_error =
  err_name :: string
  err_message :: string
  err_stack :: string
  err_code :: "int option"
  err_errors :: "(string \<times> string) list option"

text \<open>
  \<open>errorHandler\<close> answers (\<open>Inr\<close>) or raises (\<open>Inl\<close>, the message of the exception):
  in the \<open>ValidationError\<close> branch \<open>Object.values(err.errors)\<close> raises a \<open>TypeError\<close>
  when the error has no \<open>errors\<close> table, before any status is written.
\<close>

definition errorHandler :: "config \<Rightarrow> string \<Rightarrow> js_error \<Rightarrow> string + response" where
  "errorHandler cfg ts err =
     (let error0 = [(''success'', JBool False), (''message'', JStr ''Internal server error''),
                    (''timestamp'', JStr ts)];
          error = (if isDevelopment cfg
                   then error0 @ [(''error'', JStr (err_message err)),
                                  (''stack'', JStr (err_stack err))]
                   else error0)
      in if err_name err = ''ValidationError'' then
           (case err_errors err of
              None \<Rightarrow> Inl ''TypeError: Cannot convert undefined or null to object''
            | Some errors \<Rightarrow>
                Inr \<lparr> status = 400,
                      content = JObj (assign ''message'' (JStr ''Validation error'') error
                                  @ [(''details'', JArr (map (\<lambda>e. JStr (snd e)) errors))]) \<rparr>)
         else if err_name err = ''CastError'' then
           Inr \<lparr> status = 400,
                 content = JObj (assign ''message'' (JStr ''Invalid ID format'') error) \<rparr>
         else if err_name err = ''MongoError'' \<and> err_code err = Some 11000 then
           Inr \<lparr> status = 400,
                 content = JObj (assign ''message'' (JStr ''Duplicate field value'') error) \<rparr>
         else Inr \<lparr> status = 500, content = JObj error \<rparr>)"

text \<open>\<open>url\<close> is \<open>req.originalUrl\<close>.\<close>

definition notFoundHandler :: "request \<Rightarrow> string \<Rightarrow> string \<Rightarrow> response" where
  "notFoundHandler req url ts =
     \<lparr> status = 404,
       content = JObj [(''success'', JBool False),
                       (''message'', JStr (''Route '' @ url @ '' not found'')),
                       (''method'', JStr (http_method req)),
                       (''timestamp'', JStr ts)] \<rparr>"

text \<open>
  A request as it arrives, before \<open>setupCommonMiddleware\<close>: the method, the path and
  what becomes of the payload under \<open>express.json\<close> and \<open>express.urlencoded\<close>.
  \<open>Parsed b\<close>: the parsers set \<open>req.body\<close> to \<open>b\<close> and call \<open>next()\<close>. \<open>Failed e\<close>:
  a parser hands the error \<open>e\<close> to \<open>next\<close> (malformed JSON, a payload over the limit).
  \<open>Stalled\<close>: the socket stays idle for \<open>config.api.timeout\<close> while the payload is
  awaited.
\<close>

datatype payload = Parsed json | Failed js_error | Stalled

record incoming =
  inc_method :: string
  inc_path :: "string list"
  inc_payload :: payload

text \<open>
  What a group of middleware does with a request: it answers, it hands an error to
  \<open>next\<close>, or it passes the request on.
\<close>

datatype 'a passage = Answered response | Raised js_error | Passed 'a

text \<open>
  \<open>requestTimeout\<close> sets the timeout of the request and calls \<open>next()\<close>; this is the
  answer of its callback, which runs when the timeout expires before the request is
  complete.
\<close>

definition requestTimeout :: "string \<Rightarrow> response" where
  "requestTimeout ts =
     \<lparr> status = 408,
       content = JObj [(''success'', JBool False),
                       (''message'', JStr ''Request timeout''),
                       (''timestamp'', JStr ts)] \<rparr>"

text \<open>
  \<open>corsMiddleware\<close> is \<open>cors(config.cors)\<close>. \<open>config.cors\<close> does not set
  \<open>preflightContinue\<close>: the package ends an \<open>OPTIONS\<close> request itself, with status 204
  and an empty body, and lets every other request pass with its headers added.
\<close>

definition corsMiddleware :: "incoming \<Rightarrow> response option" where
  "corsMiddleware rq =
     (if inc_method rq = ''OPTIONS'' then Some \<lparr> status = 204, content = JNull \<rparr> else None)"

text \<open>
  \<open>setupCommonMiddleware\<close> in the order of registration. \<open>securityHeaders\<close>,
  \<open>requestLogger\<close> and \<open>apiVersion\<close> set headers or log and call \<open>next()\<close>; headers are
  not part of a response here. \<open>serveStatic\<close> is
  \<open>express.static(config.static.directory)\<close>: it answers with a file of the directory,
  hands an error of the file system to \<open>next\<close>, or passes the request on.
\<close>

definition setupCommonMiddleware ::
  "string \<Rightarrow> (request \<Rightarrow> unit passage) \<Rightarrow> incoming \<Rightarrow> request passage"
where
  "setupCommonMiddleware ts serveStatic rq =
     (case corsMiddleware rq of
        Some r \<Rightarrow> Answered r
      | None \<Rightarrow>
     (case inc_payload rq of
        Stalled \<Rightarrow> Answered (requestTimeout ts)
      | Failed e \<Rightarrow> Raised e
      | Parsed b \<Rightarrow>
          (let req = \<lparr> http_method = inc_method rq, path = inc_path rq, body = b \<rparr>
           in case serveStatic req of
                Answered r \<Rightarrow> Answered r
              | Raised e \<Rightarrow> Raised e
              | Passed u \<Rightarrow> Passed req)))"

section \<open>Utilities (module \<open>src/utils\<close>)\<close>

text \<open>
  \<open>isValidObjectId\<close> tests the identifier against \<open>/^[0-9a-fA-F]{24}$/\<close>. The matcher
  below reads the pattern from left to right: \<open>hex_class\<close> is the character class (three
  ranges of character codes), \<open>repeat_class n\<close> consumes exactly \<open>n\<close> characters of the
  class and returns what is left, and \<open>$\<close> (no \<open>m\<close> flag) accepts only the end of the
  input.
\<close>

definition hex_class :: "char \<Rightarrow> bool" where
  "hex_class c =
     (let n = (of_char c :: nat)
      in (48 \<le> n \<and> n \<le> 57) \<or> (97 \<le> n \<and> n \<le> 102) \<or> (65 \<le> n \<and> n \<le> 70))"

fun repeat_class :: "nat \<Rightarrow> string \<Rightarrow> string option" where
  "repeat_class 0 s = Some s"
| "repeat_class (Suc n) [] = None"
| "repeat_class (Suc n) (c # cs) = (if hex_class c then repeat_class n cs else None)"

definition isValidObjectId :: "string \<Rightarrow> bool" where
  "isValidObjectId ident = (repeat_class 24 ident = Some [])"


section \<open>Status, health probe and statistics of the manager\<close>

text \<open>
  What the manager reads from \<open>mongoose.connection\<close> when asked: the readiness code,
  host, port and database name (absent until connected), the outcome of
  \<open>db.admin().ping()\<close> (\<open>Some\<close> is the rejection) and the outcome of \<open>db.stats()\<close>.
\<close>

record db_stats =
  collections :: int
  objects :: int
  dataSize :: int
  storageSize :: int
  indexes :: int
  indexSize :: int

record mongoose_connection =
  readyState :: nat
  host :: "string option"
  port :: "nat option"
  name :: "string option"
  ping :: "string option"
  stats :: "string + db_stats"

record status_report =
  st_isConnected :: bool
  st_state :: string
  st_readyState :: nat
  st_readyStateText :: string
  st_host :: "string option"
  st_port :: "nat option"
  st_name :: "string option"
  st_connectionAttempts :: nat

definition getReadyStateText :: "mongoose_connection \<Rightarrow> string" where
  "getReadyStateText conn =
     (if readyState conn = 0 then ''disconnected''
      else if readyState conn = 1 then ''connected''
      else if readyState conn = 2 then ''connecting''
      else if readyState conn = 3 then ''disconnecting''
      else ''unknown'')"

definition getStatus :: "mongoose_connection \<Rightarrow> world \<Rightarrow> status_report" where
  "getStatus conn w =
     \<lparr> st_isConnected = isConnected (db w),
       st_state = connectionState (db w),
       st_readyState = readyState conn,
       st_readyStateText = getReadyStateText conn,
       st_host = host conn, st_port = port conn, st_name = name conn,
       st_connectionAttempts = connectionAttempts (db w) \<rparr>"

text \<open>
  The whole body of \<open>isHealthy\<close> and of \<open>getStats\<close> is inside \<open>try\<close>, and each
  \<open>catch\<close> returns a value: neither raises.
\<close>

definition isHealthy :: "mongoose_connection \<Rightarrow> world \<Rightarrow> bool" where
  "isHealthy conn w =
     (if \<not> isConnected (db w) then False
      else (case ping conn of None \<Rightarrow> True | Some e \<Rightarrow> False))"

definition getStats :: "mongoose_connection \<Rightarrow> world \<Rightarrow> json" where
  "getStats conn w =
     (if \<not> isConnected (db w) then JObj [(''error'', JStr ''Database not connected'')]
      else (case stats conn of
              Inl msg \<Rightarrow> JObj [(''error'', JStr msg)]
            | Inr s \<Rightarrow> JObj [(''collections'', JNum (collections s)),
                             (''documents'', JNum (objects s)),
                             (''dataSize'', JNum (dataSize s)),
                             (''storageSize'', JNum (storageSize s)),
                             (''indexes'', JNum (indexes s)),
                             (''indexSize'', JNum (indexSize s))]))"

section \<open>System routes (module \<open>src/routes/api\<close>, mounted as \<open>apiRoutes\<close>)\<close>

text \<open>
  The readings of the Node runtime taken while a report is built. \<open>process.uptime()\<close>
  and the sizes in \<open>process.memoryUsage()\<close> are JavaScript numbers, and
  \<open>formatBytes\<close> and \<open>formatUptime\<close> are floating-point arithmetic on them: the
  numbers are kept as JSON values and the two formatters as functions of the runtime.
  \<open>process_memoryUsage\<close> is \<open>Inl\<close> when the call raises (the runtime cannot read the
  figures); it stands for the calls into the runtime inside the handler's \<open>try\<close>.
\<close>

record runtime =
  now_iso :: string
  process_uptime :: json
  process_memoryUsage :: "string + fields"
  process_version :: string
  process_platform :: string
  process_arch :: string
  process_pid :: nat
  formatBytes :: "json option \<Rightarrow> string"
  formatUptime :: "json \<Rightarrow> string"

text \<open>
  \<open>GET /health\<close>. The object literal names \<open>uptime\<close> twice; the later value stays, at
  the place of the first. \<open>getStats\<close> cannot raise, so the inner \<open>catch\<close> (which would
  set \<open>statsError\<close>) has no case here.
\<close>

definition health :: "config \<Rightarrow> runtime \<Rightarrow> mongoose_connection \<Rightarrow> world \<Rightarrow> response" where
  "health cfg rt conn w =
     (let dbStatus = getStatus conn w;
          isDbHealthy = isHealthy conn w
      in case process_memoryUsage rt of
           Inl msg \<Rightarrow>
             \<lparr> status = 500,
               content = JObj [(''success'', JBool False),
                               (''status'', JStr ''Health check failed''),
                               (''error'', JStr msg),
                               (''timestamp'', JStr (now_iso rt))] \<rparr>
         | Inr mem \<Rightarrow>
             (let database =
                    [(''connected'', JBool (isConnected (db w))),
                     (''healthy'', JBool isDbHealthy),
                     (''state'', JStr (st_state dbStatus))]
                    @ opt_prop ''host'' JStr (st_host dbStatus)
                    @ opt_prop ''port'' (\<lambda>p. JNum (int p)) (st_port dbStatus)
                    @ opt_prop ''name'' JStr (st_name dbStatus);
                  database' =
                    (if health_enableDetailedChecks cfg \<and> isConnected (db w)
                     then database @ [(''stats'', getStats conn w)] else database)
              in \<lparr> status = 200,
                   content = JObj
                     [(''success'', JBool True),
                      (''status'', JStr ''Server is running''),
                      (''timestamp'', JStr (now_iso rt)),
                      (''uptime'', JObj [(''raw'', process_uptime rt),
                                        (''formatted'', JStr (formatUptime rt (process_uptime rt)))]),
                      (''database'', JObj database'),
                      (''server'', JObj [(''environment'', JStr (server_environment cfg)),
                                        (''nodeVersion'', JStr (process_version rt)),
                                        (''platform'', JStr (process_platform rt)),
                                        (''arch'', JStr (process_arch rt)),
                                        (''pid'', JNum (int (process_pid rt)))]),
                      (''memory'', JObj (mem @ [(''formatted'', JObj
                          [(''rss'', JStr (formatBytes rt (map_of mem ''rss''))),
                           (''heapTotal'', JStr (formatBytes rt (map_of mem ''heapTotal''))),
                           (''heapUsed'', JStr (formatBytes rt (map_of mem ''heapUsed''))),
                           (''external'', JStr (formatBytes rt (map_of mem ''external'')))])]))] \<rparr>))"

text \<open>
  The other system routes answer with descriptions of the service that no claim reads:
  their bodies are given. \<open>version_info\<close> is \<open>Inl\<close> when reading \<open>package.json\<close>
  raises. \<open>GET /status\<close> redirects to \<open>/health\<close>.
\<close>

record site =
  version_info :: "string + json"
  api_info :: json
  documentation :: json

text \<open>
  The application and its routers are created with Express's default settings, under
  which the path of a route and the prefix of a mount are matched without regard to the
  case of the letters \<open>A\<close> to \<open>Z\<close>.
\<close>

definition toLowerCase :: "string \<Rightarrow> string" where
  "toLowerCase s =
     map (\<lambda>c. case map_of (zip ''ABCDEFGHIJKLMNOPQRSTUVWXYZ'' ''abcdefghijklmnopqrstuvwxyz'') c of
                 Some l \<Rightarrow> l
               | None \<Rightarrow> c) s"

definition matches :: "string list \<Rightarrow> string list \<Rightarrow> bool" where
  "matches route p = (map toLowerCase p = map toLowerCase route)"

definition apiRoutes ::
  "config \<Rightarrow> runtime \<Rightarrow> mongoose_connection \<Rightarrow> site \<Rightarrow> world \<Rightarrow> request \<Rightarrow> response option"
where
  "apiRoutes cfg rt conn pages w req =
     (if http_method req \<noteq> ''GET'' then None
      else if matches [''health''] (path req) then Some (health cfg rt conn w)
      else if matches [''version''] (path req) then
        Some (case version_info pages of
                Inr v \<Rightarrow> \<lparr> status = 200, content = v \<rparr>
              | Inl msg \<Rightarrow>
                  \<lparr> status = 500,
                    content = JObj [(''success'', JBool False),
                      (''message'', JStr ''Failed to retrieve version information''),
                      (''error'', JStr msg),
                      (''timestamp'', JStr (now_iso rt))] \<rparr>)
      else if matches [] (path req) then Some \<lparr> status = 200, content = api_info pages \<rparr>
      else if matches [''status''] (path req) then
        Some \<lparr> status = 302, content = JStr ''Found. Redirecting to /health'' \<rparr>
      else if matches [''docs''] (path req) then Some \<lparr> status = 200, content = documentation pages \<rparr>
      else None)"

section \<open>Application (module \<open>src/app\<close>: \<open>setupRoutes\<close>, \<open>createApp\<close>)\<close>

text \<open>
  \<open>app.use(prefix, h)\<close> hands \<open>h\<close> the requests whose path starts with the prefix
  (whatever the case of its letters), with the prefix taken off.
\<close>

definition mounted :: "string list \<Rightarrow> request \<Rightarrow> request option" where
  "mounted prefix req =
     (if matches prefix (take (length prefix) (path req))
      then Some (req \<lparr> path := drop (length prefix) (path req) \<rparr>) else None)"

text \<open>
  The file \<open>routes/projects.js\<close> is required by \<open>setupRoutes\<close>; here the router is the
  parameter \<open>projectRoutes\<close>, which answers a request with a result of its own (\<open>None\<close>:
  no route of the router matches). An outcome of the application is either a response
  written by the middleware of this file, or the result of the project router.
\<close>

datatype 'r outcome = Replied response | Routed 'r

text \<open>
  \<open>setupRoutes\<close> in the order of registration: the system routes at \<open>/\<close> and at
  \<open>/api\<close>, then \<open>/api/projects\<close> with the connection check in front of the project
  router, then, in production, the rate limiter on \<open>/api\<close> (\<open>rateLimiter\<close> answers
  when the limit is exceeded). \<open>None\<close>: the request goes on to \<open>setupErrorHandling\<close>.
\<close>

definition setupRoutes ::
  "config \<Rightarrow> runtime \<Rightarrow> mongoose_connection \<Rightarrow> site \<Rightarrow> (request \<Rightarrow> response option) \<Rightarrow>
   (request \<Rightarrow> 'r option) \<Rightarrow> world \<Rightarrow> request \<Rightarrow> 'r outcome option"
where
  "setupRoutes cfg rt conn pages rateLimiter projectRoutes w req =
     (case apiRoutes cfg rt conn pages w req of
        Some r \<Rightarrow> Some (Replied r)
      | None \<Rightarrow>
     (case Option.bind (mounted [''api''] req) (apiRoutes cfg rt conn pages w) of
        Some r \<Rightarrow> Some (Replied r)
      | None \<Rightarrow>
     (case (case mounted [''api'', ''projects''] req of
              None \<Rightarrow> None
            | Some req' \<Rightarrow>
                (case checkDatabaseConnection w (now_iso rt) of
                   Some r \<Rightarrow> Some (Replied r)
                 | None \<Rightarrow> map_option Routed (projectRoutes req'))) of
        Some out \<Rightarrow> Some out
      | None \<Rightarrow>
     (if isProduction cfg then
        map_option Replied (Option.bind (mounted [''api''] req) rateLimiter)
      else None))))"

definition original_url :: "request \<Rightarrow> string" where
  "original_url req = concat (map (\<lambda>seg. ''/'' @ seg) (path req))"

text \<open>
  The route table followed by \<open>notFoundHandler\<close>, the first handler of
  \<open>setupErrorHandling\<close>: what the application does with a request that the common
  middleware has passed on.
\<close>

definition dispatch ::
  "config \<Rightarrow> runtime \<Rightarrow> mongoose_connection \<Rightarrow> site \<Rightarrow> (request \<Rightarrow> response option) \<Rightarrow>
   (request \<Rightarrow> 'r option) \<Rightarrow> world \<Rightarrow> request \<Rightarrow> 'r outcome"
where
  "dispatch cfg rt conn pages rateLimiter projectRoutes w req =
     (case setupRoutes cfg rt conn pages rateLimiter projectRoutes w req of
        Some out \<Rightarrow> out
      | None \<Rightarrow> Replied (notFoundHandler req (original_url req) (now_iso rt)))"

text \<open>
  \<open>createApp\<close>: \<open>setupCommonMiddleware\<close>, \<open>setupRoutes\<close>, then \<open>setupErrorHandling\<close>.
  \<open>config.validate()\<close> does not raise, both required settings having a default. An
  error handed to \<open>next\<close> skips the routes and \<open>notFoundHandler\<close> and reaches
  \<open>errorHandler\<close>. The result is \<open>Inl\<close> when \<open>errorHandler\<close> itself raises: no handler
  of the application has then written a response.
\<close>

definition createApp ::
  "config \<Rightarrow> runtime \<Rightarrow> mongoose_connection \<Rightarrow> site \<Rightarrow> (request \<Rightarrow> unit passage) \<Rightarrow>
   (request \<Rightarrow> response option) \<Rightarrow> (request \<Rightarrow> 'r option) \<Rightarrow> world \<Rightarrow> incoming \<Rightarrow>
   string + 'r outcome"
where
  "createApp cfg rt conn pages serveStatic rateLimiter projectRoutes w rq =
     (case setupCommonMiddleware (now_iso rt) serveStatic rq of
        Answered r \<Rightarrow> Inr (Replied r)
      | Raised e \<Rightarrow>
          (case errorHandler cfg (now_iso rt) e of
             Inl msg \<Rightarrow> Inl msg
           | Inr r \<Rightarrow> Inr (Replied r))
      | Passed req \<Rightarrow> Inr (dispatch cfg rt conn pages rateLimiter projectRoutes w req))"

section \<open>Project schema (the schema file, \<open>models/Project.js\<close>)\<close>

text \<open>
  The schema is a table of paths with their options, in the order of the file. Its last
  argument \<open>{ timestamps: true }\<close> is \<open>schema_timestamps\<close>.
\<close>

datatype schema_type = SString | SStringArray | SDate

datatype schema_default = NoDefault | DefaultValue json | DefaultNow

record schema_path =
  p_type :: schema_type
  p_required :: "string option"
  p_trim :: bool
  p_enum :: "string list option"
  p_default :: schema_default

definition projectSchema :: "(string \<times> schema_path) list" where
  "projectSchema =
     [(''name'', \<lparr> p_type = SString, p_required = Some ''Project name is required'',
                   p_trim = True, p_enum = None, p_default = NoDefault \<rparr>),
      (''description'', \<lparr> p_type = SString,
                   p_required = Some ''Project description is required'',
                   p_trim = True, p_enum = None, p_default = NoDefault \<rparr>),
      (''technologies'', \<lparr> p_type = SStringArray, p_required = None, p_trim = False,
                   p_enum = None, p_default = DefaultValue (JArr []) \<rparr>),
      (''status'', \<lparr> p_type = SString, p_required = None, p_trim = False,
                   p_enum = Some [''planning'', ''in-progress'', ''completed'', ''on-hold''],
                   p_default = DefaultValue (JStr ''planning'') \<rparr>),
      (''startDate'', \<lparr> p_type = SDate, p_required = None, p_trim = False,
                   p_enum = None, p_default = DefaultNow \<rparr>),
      (''endDate'', \<lparr> p_type = SDate, p_required = None, p_trim = False,
                   p_enum = None, p_default = NoDefault \<rparr>),
      (''repository'', \<lparr> p_type = SString, p_required = None, p_trim = True,
                   p_enum = None, p_default = NoDefault \<rparr>),
      (''liveUrl'', \<lparr> p_type = SString, p_required = None, p_trim = True,
                   p_enum = None, p_default = NoDefault \<rparr>)]"

definition schema_timestamps :: bool where
  "schema_timestamps = True"

section \<open>Validator, repository and project routes\<close>

text \<open>
  Modelled from the spec: the file \<open>routes/projects.js\<close> (the handlers of the five
  project routes, with their whitelist and identifier check) and the behaviour of the
  store behind the schema are not among the sources. The definitions of this section
  follow sections 3, 4.2, 4.3, 4.4, 6 and 7 of the specification, applied to the schema
  table above and to \<open>isValidObjectId\<close>.
\<close>

text \<open>
  Modelled from the spec: "non-empty after trim". Trimming removes the white space at
  both ends; the white-space characters are those of \<open>String.prototype.trim\<close> among
  the character codes below 256.
\<close>

definition is_space :: "char \<Rightarrow> bool" where
  "is_space c = ((of_char c :: nat) \<in> {9, 10, 11, 12, 13, 32, 160})"

text \<open>
  Modelled from the spec: trimming ("non-empty after trim"), the white space taken off
  both ends.
\<close>

definition js_trim :: "string \<Rightarrow> string" where
  "js_trim s = rev (dropWhile is_space (rev (dropWhile is_space s)))"

text \<open>
  Modelled from the spec: a field is malformed when its value is not of the type of its
  path (section 3): text, a sequence of text, a timestamp.
\<close>

fun is_text :: "json \<Rightarrow> bool" where
  "is_text (JStr s) = True"
| "is_text _ = False"

text \<open>
  Modelled from the spec: the value of a field, cast to the type of its path (section
  3); a text path with \<open>trim\<close> stores the trimmed text. \<open>None\<close>:
  malformed.
\<close>

definition cast_value :: "schema_path \<Rightarrow> json \<Rightarrow> json option" where
  "cast_value p v =
     (case p_type p of
        SString \<Rightarrow>
          (case v of JStr s \<Rightarrow> Some (JStr (if p_trim p then js_trim s else s)) | _ \<Rightarrow> None)
      | SStringArray \<Rightarrow>
          (case v of JArr xs \<Rightarrow> (if list_all is_text xs then Some (JArr xs) else None)
                   | _ \<Rightarrow> None)
      | SDate \<Rightarrow> (case v of JDate t \<Rightarrow> Some (JDate t) | _ \<Rightarrow> None))"

text \<open>
  Modelled from the spec: a value of an enumerated path must be one of its values
  (section 4.2).
\<close>

definition check_enum :: "string \<Rightarrow> schema_path \<Rightarrow> json \<Rightarrow> string + json" where
  "check_enum k p v =
     (case p_enum p of
        None \<Rightarrow> Inr v
      | Some allowed \<Rightarrow>
          (case v of
             JStr s \<Rightarrow> (if s \<in> set allowed then Inr v
                        else Inl (s @ '' is not a valid enum value for path '' @ k))
           | _ \<Rightarrow> Inr v))"

text \<open>
  Modelled from the spec: the value supplied for a path is cast, a required text must be
  non-empty after trimming, and a value of an enumerated path must be one of its values.
  \<open>Inl\<close> is the message of the violation, \<open>Inr\<close> the value to store.
\<close>

definition check_value :: "string \<Rightarrow> schema_path \<Rightarrow> json \<Rightarrow> string + json" where
  "check_value k p v =
     (case cast_value p v of
        None \<Rightarrow> Inl (''Cast failed for path '' @ k)
      | Some v' \<Rightarrow>
          (case p_required p of
             Some msg \<Rightarrow> (if v' = JStr [] then Inl msg else check_enum k p v')
           | None \<Rightarrow> check_enum k p v'))"

text \<open>
  Modelled from the spec: on creation a path that is not supplied takes its default
  (\<open>DefaultNow\<close>: the creation time), and is a violation when it is required and has
  none. The result for one path is its violation or the fields it contributes.
\<close>

definition validate_path :: "int \<Rightarrow> fields \<Rightarrow> string \<times> schema_path \<Rightarrow> string + fields" where
  "validate_path now input kp =
     (case map_of input (fst kp) of
        None \<Rightarrow>
          (case p_default (snd kp) of
             DefaultValue v \<Rightarrow> Inr [(fst kp, v)]
           | DefaultNow \<Rightarrow> Inr [(fst kp, JDate now)]
           | NoDefault \<Rightarrow>
               (case p_required (snd kp) of Some msg \<Rightarrow> Inl msg | None \<Rightarrow> Inr []))
      | Some v \<Rightarrow>
          (case check_value (fst kp) (snd kp) v of
             Inl e \<Rightarrow> Inl e
           | Inr v' \<Rightarrow> Inr [(fst kp, v')]))"

text \<open>
  Modelled from the spec: the violations among the results of the paths (a validation
  error names the offending fields).
\<close>

fun lefts :: "('a + 'b) list \<Rightarrow> 'a list" where
  "lefts [] = []"
| "lefts (Inl a # xs) = a # lefts xs"
| "lefts (Inr b # xs) = lefts xs"

text \<open>
  Modelled from the spec: the fields contributed by the paths that passed.
\<close>

fun rights :: "('a + 'b) list \<Rightarrow> 'b list" where
  "rights [] = []"
| "rights (Inl a # xs) = rights xs"
| "rights (Inr b # xs) = b # rights xs"

text \<open>
  Modelled from the spec: on update only the supplied fields are checked; a field that
  is not a path of the schema contributes nothing.
\<close>

definition validate_field :: "string \<times> json \<Rightarrow> string + fields" where
  "validate_field kv =
     (case map_of projectSchema (fst kv) of
        None \<Rightarrow> Inr []
      | Some p \<Rightarrow>
          (case check_value (fst kv) p (snd kv) of
             Inl e \<Rightarrow> Inl e
           | Inr v' \<Rightarrow> Inr [(fst kv, v')]))"

text \<open>Modelled from the spec: the failure kinds of section 7 and their statuses.\<close>

datatype failure =
  ValidationFailure "string list" | NotFound | StorageUnavailable | DuplicateKey
  | Unknown string

text \<open>
  Modelled from the spec: the status of each failure kind (section 7).
\<close>

fun failure_status :: "failure \<Rightarrow> nat" where
  "failure_status (ValidationFailure msgs) = 400"
| "failure_status NotFound = 404"
| "failure_status StorageUnavailable = 503"
| "failure_status DuplicateKey = 400"
| "failure_status (Unknown msg) = 500"

text \<open>
  Modelled from the spec: the repository of section 4.3. The collection is the list of
  stored documents, each a JSON object with \<open>_id\<close>, the schema's fields and the two
  timestamps. \<open>connected\<close> is the manager's flag (the repository checks it again),
  \<open>newId\<close> the identifier the store assigns to a new document, \<open>now\<close> the clock at
  the operation. The store keeps \<open>_id\<close> unique.
\<close>

type_synonym doc = fields

type_synonym store = "doc list"

text \<open>
  Modelled from the spec: the record with a given identifier (section 3:
  \<open>id\<close> identifies a Project).
\<close>

definition has_id :: "string \<Rightarrow> doc \<Rightarrow> bool" where
  "has_id ident d = (map_of d ''_id'' = Some (JStr ident))"

text \<open>
  Modelled from the spec: the lookup by identifier; \<open>None\<close> when no record
  has it.
\<close>

definition find_doc :: "string \<Rightarrow> store \<Rightarrow> doc option" where
  "find_doc ident st = find (has_id ident) st"

text \<open>
  Modelled from the spec: the collection after the record with the identifier is
  replaced.
\<close>

fun replace_doc :: "string \<Rightarrow> doc \<Rightarrow> store \<Rightarrow> store" where
  "replace_doc ident d' [] = []"
| "replace_doc ident d' (d # ds) =
     (if has_id ident d then d' # ds else d # replace_doc ident d' ds)"

text \<open>
  Modelled from the spec: the collection after the record with the identifier is
  removed.
\<close>

fun remove_doc :: "string \<Rightarrow> store \<Rightarrow> store" where
  "remove_doc ident [] = []"
| "remove_doc ident (d # ds) = (if has_id ident d then ds else d # remove_doc ident ds)"

text \<open>
  Modelled from the spec: \<open>create(fields)\<close> persists a new Project with
  system-assigned \<open>id\<close>, \<open>createdAt\<close>, \<open>updatedAt\<close>
  and returns the stored record; it fails with \<open>ValidationFailure\<close> when the
  schema is violated (section 4.3).
\<close>

definition create :: "bool \<Rightarrow> string \<Rightarrow> int \<Rightarrow> fields \<Rightarrow> store \<Rightarrow> failure + (doc \<times> store)" where
  "create connected newId now input st =
     (if \<not> connected then Inl StorageUnavailable
      else
        (let rs = map (validate_path now input) projectSchema in
         if lefts rs \<noteq> [] then Inl (ValidationFailure (lefts rs))
         else if find_doc newId st \<noteq> None then Inl DuplicateKey
         else
           (let d = [(''_id'', JStr newId)] @ concat (rights rs)
                    @ (if schema_timestamps
                       then [(''createdAt'', JDate now), (''updatedAt'', JDate now)] else [])
            in Inr (d, st @ [d]))))"

text \<open>
  Modelled from the spec: \<open>getAll()\<close> returns every Project, an empty
  sequence when there is none (section 4.3).
\<close>

definition getAll :: "bool \<Rightarrow> store \<Rightarrow> failure + doc list" where
  "getAll connected st = (if \<not> connected then Inl StorageUnavailable else Inr st)"

text \<open>
  Modelled from the spec: \<open>getById(id)\<close> returns the matching Project or
  fails with \<open>NotFound\<close> (section 4.3).
\<close>

definition getById :: "bool \<Rightarrow> string \<Rightarrow> store \<Rightarrow> failure + doc" where
  "getById connected ident st =
     (if \<not> connected then Inl StorageUnavailable
      else (case find_doc ident st of None \<Rightarrow> Inl NotFound | Some d \<Rightarrow> Inr d))"

text \<open>
  Modelled from the spec: the supplied fields written into the record, one after the
  other.
\<close>

definition apply_fields :: "fields \<Rightarrow> doc \<Rightarrow> doc" where
  "apply_fields fs d = foldl (\<lambda>d' kv. assign (fst kv) (snd kv) d') d fs"

text \<open>
  Modelled from the spec: \<open>update(id, fields)\<close> applies the fields,
  refreshes \<open>updatedAt\<close> and returns the post-update record; it fails with
  \<open>ValidationFailure\<close> on a schema violation and with
  \<open>NotFound\<close> when the identifier does not exist (section 4.3).
\<close>

definition update :: "bool \<Rightarrow> string \<Rightarrow> int \<Rightarrow> fields \<Rightarrow> store \<Rightarrow> failure + (doc \<times> store)" where
  "update connected ident now input st =
     (if \<not> connected then Inl StorageUnavailable
      else
        (let rs = map validate_field input in
         if lefts rs \<noteq> [] then Inl (ValidationFailure (lefts rs))
         else
           (case find_doc ident st of
              None \<Rightarrow> Inl NotFound
            | Some d \<Rightarrow>
                (let d1 = apply_fields (concat (rights rs)) d;
                     d' = (if schema_timestamps then assign ''updatedAt'' (JDate now) d1
                           else d1)
                 in Inr (d', replace_doc ident d' st)))))"

text \<open>
  Modelled from the spec: \<open>delete(id)\<close> removes the record and returns its
  identifier; it fails with \<open>NotFound\<close> when it does not exist (section
  4.3).
\<close>

definition delete :: "bool \<Rightarrow> string \<Rightarrow> store \<Rightarrow> failure + (string \<times> store)" where
  "delete connected ident st =
     (if \<not> connected then Inl StorageUnavailable
      else (case find_doc ident st of
              None \<Rightarrow> Inl NotFound
            | Some d \<Rightarrow> Inr (ident, remove_doc ident st)))"

text \<open>
  Modelled from the spec: whitelisting (section 4.2). Only the fields of section 3 other
  than the system-managed ones are taken from the request body; a body that is not an
  object supplies none.
\<close>

definition allowedFields :: "string list" where
  "allowedFields =
     [''name'', ''description'', ''technologies'', ''status'', ''startDate'', ''endDate'',
      ''repository'', ''liveUrl'']"

text \<open>
  Modelled from the spec: any other submitted field is silently dropped before reaching
  the repository (section 4.2).
\<close>

definition sanitize :: "json \<Rightarrow> fields" where
  "sanitize b =
     (case b of JObj kvs \<Rightarrow> filter (\<lambda>kv. fst kv \<in> set allowedFields) kvs | _ \<Rightarrow> [])"

text \<open>
  Modelled from the spec: the envelopes of section 6 and the handlers of section 4.4.
  A handler returns its response, the collection afterwards and the repository
  operations it invoked, in order.
\<close>

datatype repo_call =
  CallGetAll | CallGetById string | CallCreate fields | CallUpdate string fields
  | CallDelete string

type_synonym handled = "response \<times> store \<times> repo_call list"

text \<open>
  Modelled from the spec: the \<open>message\<close> of the error envelope (section 6).
\<close>

fun failure_message :: "failure \<Rightarrow> string" where
  "failure_message (ValidationFailure msgs) = ''Validation error''"
| "failure_message NotFound = ''Project not found''"
| "failure_message StorageUnavailable = ''Database service unavailable''"
| "failure_message DuplicateKey = ''Duplicate field value''"
| "failure_message (Unknown msg) = ''Internal server error''"

text \<open>
  Modelled from the spec: the error envelope \<open>{success: false, message, error?,
  timestamp}\<close> with the status of the failure kind (sections 6 and 7).
\<close>

definition failure_response :: "string \<Rightarrow> failure \<Rightarrow> response" where
  "failure_response ts f =
     \<lparr> status = failure_status f,
       content = JObj ([(''success'', JBool False), (''message'', JStr (failure_message f))]
                       @ (case f of ValidationFailure msgs \<Rightarrow>
                                      [(''error'', JArr (map JStr msgs))]
                                  | Unknown msg \<Rightarrow> [(''error'', JStr msg)]
                                  | _ \<Rightarrow> [])
                       @ [(''timestamp'', JStr ts)]) \<rparr>"

text \<open>
  Modelled from the spec: the success envelope \<open>{success: true, message?,
  data?}\<close> (section 6).
\<close>

definition success_response :: "nat \<Rightarrow> string \<Rightarrow> json \<Rightarrow> response" where
  "success_response code msg payload =
     \<lparr> status = code,
       content = JObj [(''success'', JBool True), (''message'', JStr msg),
                       (''data'', payload)] \<rparr>"

text \<open>
  Modelled from the spec: a malformed identifier is a validation failure (sections 4.2
  and 7).
\<close>

definition invalid_id :: failure where
  "invalid_id = ValidationFailure [''Invalid project ID format'']"

text \<open>
  Modelled from the spec: \<open>GET /api/projects\<close>, 200 with \<open>{success,
  data, count}\<close> (section 6).
\<close>

definition handle_getAll :: "bool \<Rightarrow> string \<Rightarrow> store \<Rightarrow> handled" where
  "handle_getAll connected ts st =
     (case getAll connected st of
        Inl f \<Rightarrow> (failure_response ts f, st, [CallGetAll])
      | Inr ds \<Rightarrow>
          (\<lparr> status = 200,
             content = JObj [(''success'', JBool True), (''data'', JArr (map JObj ds)),
                             (''count'', JNum (int (length ds)))] \<rparr>,
           st, [CallGetAll]))"

text \<open>
  Modelled from the spec: \<open>GET /api/projects/:id\<close>; the identifier is
  checked before the lookup (sections 4.2, 4.4 and 6).
\<close>

definition handle_getById :: "bool \<Rightarrow> string \<Rightarrow> store \<Rightarrow> string \<Rightarrow> handled" where
  "handle_getById connected ts st ident =
     (if \<not> isValidObjectId ident then (failure_response ts invalid_id, st, [])
      else
        (case getById connected ident st of
           Inl f \<Rightarrow> (failure_response ts f, st, [CallGetById ident])
         | Inr d \<Rightarrow> (success_response 200 ''Project retrieved successfully'' (JObj d),
                     st, [CallGetById ident])))"

text \<open>
  Modelled from the spec: \<open>POST /api/projects\<close>, which accepts whitelisted
  fields only; 201 on success (sections 4.4 and 6).
\<close>

definition handle_create :: "bool \<Rightarrow> string \<Rightarrow> int \<Rightarrow> string \<Rightarrow> store \<Rightarrow> json \<Rightarrow> handled" where
  "handle_create connected newId now ts st b =
     (let input = sanitize b in
      case create connected newId now input st of
        Inl f \<Rightarrow> (failure_response ts f, st, [CallCreate input])
      | Inr (d, st') \<Rightarrow>
          (success_response 201 ''Project created successfully'' (JObj d),
           st', [CallCreate input]))"

text \<open>
  Modelled from the spec: \<open>PUT /api/projects/:id\<close>; identifier check,
  whitelist, then the repository (sections 4.4 and 6).
\<close>

definition handle_update ::
  "bool \<Rightarrow> int \<Rightarrow> string \<Rightarrow> store \<Rightarrow> string \<Rightarrow> json \<Rightarrow> handled" where
  "handle_update connected now ts st ident b =
     (if \<not> isValidObjectId ident then (failure_response ts invalid_id, st, [])
      else
        (let input = sanitize b in
         case update connected ident now input st of
           Inl f \<Rightarrow> (failure_response ts f, st, [CallUpdate ident input])
         | Inr (d, st') \<Rightarrow>
             (success_response 200 ''Project updated successfully'' (JObj d),
              st', [CallUpdate ident input])))"

text \<open>
  Modelled from the spec: \<open>DELETE /api/projects/:id\<close>; identifier check,
  then the repository (sections 4.4 and 6).
\<close>

definition handle_delete :: "bool \<Rightarrow> string \<Rightarrow> store \<Rightarrow> string \<Rightarrow> handled" where
  "handle_delete connected ts st ident =
     (if \<not> isValidObjectId ident then (failure_response ts invalid_id, st, [])
      else
        (case delete connected ident st of
           Inl f \<Rightarrow> (failure_response ts f, st, [CallDelete ident])
         | Inr (i, st') \<Rightarrow>
             (success_response 200 ''Project deleted successfully''
                (JObj [(''id'', JStr i)]),
              st', [CallDelete ident])))"

text \<open>
  Modelled from the spec: the route table of section 6, below the mount point
  \<open>/api/projects\<close>.
\<close>

definition projectRoutes ::
  "bool \<Rightarrow> string \<Rightarrow> int \<Rightarrow> string \<Rightarrow> store \<Rightarrow> request \<Rightarrow> handled option" where
  "projectRoutes connected newId now ts st req =
     (case path req of
        [] \<Rightarrow>
          (if http_method req = ''GET'' then Some (handle_getAll connected ts st)
           else if http_method req = ''POST''
             then Some (handle_create connected newId now ts st (body req))
           else None)
      | [ident] \<Rightarrow>
          (if http_method req = ''GET'' then Some (handle_getById connected ts st ident)
           else if http_method req = ''PUT''
             then Some (handle_update connected now ts st ident (body req))
           else if http_method req = ''DELETE''
             then Some (handle_delete connected ts st ident)
           else None)
      | _ \<Rightarrow> None)"

section \<open>Predicates and examples used in the properties\<close>

text \<open>
  As long as the driver never announces a connection, every callback that was ever queued
  is either still pending or has made its call of \<open>connect()\<close>, and the attempt counter
  counts exactly those; the counter never passes \<open>maxRetries\<close>.
\<close>

definition retry_inv :: "world \<Rightarrow> bool" where
  "retry_inv w =
     (maxRetries (db w) = 5 \<and> retryDelay (db w) = 5000 \<and>
      reconnects w + length (timers w) = connectionAttempts (db w) \<and>
      connectionAttempts (db w) \<le> 5)"

text \<open>
  Driver calls, runtime readings, pages, routers, requests and error objects used in the
  examples.
\<close>

definition closing :: driver_call where
  "closing = \<lparr> emitted = [EvDisconnected], rejection = None \<rparr>"

definition close_fails :: driver_call where
  "close_fails = \<lparr> emitted = [], rejection = Some ''close failed'' \<rparr>"

definition nothing_to_close :: driver_call where
  "nothing_to_close = \<lparr> emitted = [], rejection = None \<rparr>"

definition quiet_runtime :: runtime where
  "quiet_runtime =
     \<lparr> now_iso = ''2025-10-30T05:14:29.729Z'',
       process_uptime = JNum 3600,
       process_memoryUsage = Inr [(''rss'', JNum 50000000), (''heapTotal'', JNum 20000000),
                                  (''heapUsed'', JNum 15000000), (''external'', JNum 1000000)],
       process_version = ''v18.17.0'',
       process_platform = ''linux'',
       process_arch = ''x64'',
       process_pid = 4242,
       formatBytes = (\<lambda>v. ''n/a''),
       formatUptime = (\<lambda>v. ''1h'') \<rparr>"

definition broken_runtime :: runtime where
  "broken_runtime = quiet_runtime \<lparr> process_memoryUsage := Inl ''ENOSYS'' \<rparr>"

definition no_connection :: mongoose_connection where
  "no_connection =
     \<lparr> readyState = 0, host = None, port = None, name = None,
       ping = Some ''not connected'', stats = Inl ''not connected'' \<rparr>"

definition pages :: site where
  "pages = \<lparr> version_info = Inl ''Cannot find module'', api_info = JNull,
             documentation = JNull \<rparr>"

definition no_limit :: "request \<Rightarrow> response option" where
  "no_limit req = None"

definition echo :: "request \<Rightarrow> request option" where
  "echo req = Some req"

definition get_one :: request where
  "get_one = \<lparr> http_method = ''GET'',
                   path = [''api'', ''projects'', ''507f1f77bcf86cd799439011''],
                   body = JNull \<rparr>"

definition get_health :: request where
  "get_health = \<lparr> http_method = ''GET'', path = [''health''], body = JNull \<rparr>"




definition bare_validation_error :: js_error where
  "bare_validation_error =
     \<lparr> err_name = ''ValidationError'', err_message = ''name is required'',
       err_stack = [], err_code = None, err_errors = None \<rparr>"

definition duplicate_key_error :: js_error where
  "duplicate_key_error =
     \<lparr> err_name = ''MongoServerError'',
       err_message = ''E11000 duplicate key error collection: renderapis.projects'',
       err_stack = [], err_code = Some 11000, err_errors = None \<rparr>"

definition syntax_error :: js_error where
  "syntax_error =
     \<lparr> err_name = ''SyntaxError'',
       err_message = ''Unexpected end of JSON input'',
       err_stack = [], err_code = None, err_errors = None \<rparr>"

definition no_files :: "request \<Rightarrow> unit passage" where
  "no_files req = Passed ()"

definition incoming_get_one :: incoming where
  "incoming_get_one =
     \<lparr> inc_method = ''GET'',
       inc_path = [''API'', ''Projects'', ''507f1f77bcf86cd799439011''],
       inc_payload = Parsed (JObj []) \<rparr>"

definition malformed_post :: incoming where
  "malformed_post =
     \<lparr> inc_method = ''POST'', inc_path = [''api'', ''projects''],
       inc_payload = Failed syntax_error \<rparr>"

text \<open>
  The identifier shape in the words of the specification: a string of exactly 24
  hexadecimal characters. It is compared below with \<open>isValidObjectId\<close>, which is the
  definition taken from the source.
\<close>

definition shaped :: "string \<Rightarrow> bool" where
  "shaped ident =
     (length ident = 24 \<and> list_all (\<lambda>c. c \<in> set ''0123456789abcdefABCDEF'') ident)"

text \<open>
  A stored document is clean when each of its fields is a field of the data model: a
  whitelisted one or one of the three system-managed ones.
\<close>

definition systemFields :: "string list" where
  "systemFields = [''_id'', ''createdAt'', ''updatedAt'']"

definition clean :: "doc \<Rightarrow> bool" where
  "clean d = list_all (\<lambda>kv. fst kv \<in> set (allowedFields @ systemFields)) d"

text \<open>
  A creation payload in the terms of the data model: \<open>name\<close> and \<open>description\<close> are
  text that is non-empty after trimming, and each optional field that is supplied has a
  value of its type (\<open>status\<close> one of the four values).
\<close>

fun is_date :: "json \<Rightarrow> bool" where
  "is_date (JDate t) = True"
| "is_date _ = False"

fun is_text_list :: "json \<Rightarrow> bool" where
  "is_text_list (JArr xs) = list_all is_text xs"
| "is_text_list _ = False"

fun is_status :: "json \<Rightarrow> bool" where
  "is_status (JStr s) = (s \<in> set [''planning'', ''in-progress'', ''completed'', ''on-hold''])"
| "is_status _ = False"

definition absent_or :: "(json \<Rightarrow> bool) \<Rightarrow> json option \<Rightarrow> bool" where
  "absent_or P v = (case v of None \<Rightarrow> True | Some x \<Rightarrow> P x)"

definition optional_fields_valid :: "fields \<Rightarrow> bool" where
  "optional_fields_valid input =
     (absent_or is_text_list (map_of input ''technologies'')
      \<and> absent_or is_status (map_of input ''status'')
      \<and> absent_or is_date (map_of input ''startDate'')
      \<and> absent_or is_date (map_of input ''endDate'')
      \<and> absent_or is_text (map_of input ''repository'')
      \<and> absent_or is_text (map_of input ''liveUrl''))"

definition required_text :: "fields \<Rightarrow> string \<Rightarrow> bool" where
  "required_text input k =
     (case map_of input k of Some (JStr s) \<Rightarrow> js_trim s \<noteq> [] | _ \<Rightarrow> False)"

text \<open>
  Requests arrive with the identifier the store would assign, the reading of the clock
  and its rendering; the gate is open. \<open>serve\<close> is the effect of one request on the
  collection. The clock never runs backwards along \<open>clock_ok\<close>. A document's
  timestamps are in order when \<open>createdAt \<le> updatedAt\<close> and neither is in the future.
\<close>

type_synonym arrival = "string \<times> int \<times> string \<times> request"

definition serve :: "arrival \<Rightarrow> store \<Rightarrow> store" where
  "serve a st =
     (case a of (newId, now, ts, req) \<Rightarrow>
        (case projectRoutes True newId now ts st req of
           None \<Rightarrow> st
         | Some (r, st', calls) \<Rightarrow> st'))"

fun serve_all :: "arrival list \<Rightarrow> store \<Rightarrow> store" where
  "serve_all [] st = st"
| "serve_all (a # as) st = serve_all as (serve a st)"

fun clock_ok :: "int \<Rightarrow> arrival list \<Rightarrow> bool" where
  "clock_ok t [] = True"
| "clock_ok t ((newId, now, ts, req) # as) = (t \<le> now \<and> clock_ok now as)"

fun last_time :: "int \<Rightarrow> arrival list \<Rightarrow> int" where
  "last_time t [] = t"
| "last_time t ((newId, now, ts, req) # as) = last_time now as"

fun date_of :: "json option \<Rightarrow> int option" where
  "date_of (Some (JDate t)) = Some t"
| "date_of _ = None"

definition stamps_ok :: "int \<Rightarrow> doc \<Rightarrow> bool" where
  "stamps_ok t d =
     (case date_of (map_of d ''createdAt'') of
        None \<Rightarrow> False
      | Some c \<Rightarrow>
          (case date_of (map_of d ''updatedAt'') of
             None \<Rightarrow> False
           | Some u \<Rightarrow> c \<le> u \<and> u \<le> t))"

definition unique_ids :: "store \<Rightarrow> bool" where
  "unique_ids st = distinct (map (\<lambda>d. map_of d ''_id'') st)"

definition store_ok :: "int \<Rightarrow> store \<Rightarrow> bool" where
  "store_ok t st = (unique_ids st \<and> list_all (stamps_ok t) st)"

text \<open>The project \<open>P1\<close> of the specification's scenario, and payloads around it.\<close>

definition p1_id :: string where
  "p1_id = ''507f1f77bcf86cd799439011''"

definition p1_input :: fields where
  "p1_input = [(''name'', JStr ''P1''), (''description'', JStr ''D1'')]"

definition p1_doc :: doc where
  "p1_doc =
     [(''_id'', JStr ''507f1f77bcf86cd799439011''),
      (''name'', JStr ''P1''), (''description'', JStr ''D1''),
      (''technologies'', JArr []), (''status'', JStr ''planning''),
      (''startDate'', JDate 1000),
      (''createdAt'', JDate 1000), (''updatedAt'', JDate 1000)]"

definition p1_done :: "int \<Rightarrow> doc" where
  "p1_done t =
     [(''_id'', JStr ''507f1f77bcf86cd799439011''),
      (''name'', JStr ''P1''), (''description'', JStr ''D1''),
      (''technologies'', JArr []), (''status'', JStr ''completed''),
      (''startDate'', JDate 1000),
      (''createdAt'', JDate 1000), (''updatedAt'', JDate t)]"

definition bogus_input :: fields where
  "bogus_input = [(''name'', JStr ''P1''), (''description'', JStr ''D1''),
                  (''status'', JStr ''bogus'')]"

definition hacked_body :: json where
  "hacked_body = JObj [(''name'', JStr ''P1''), (''description'', JStr ''D1''),
                       (''hacked'', JStr ''x'')]"

definition post_p1 :: request where
  "post_p1 = \<lparr> http_method = ''POST'', path = [], body = JObj p1_input \<rparr>"

definition put_completed :: request where
  "put_completed = \<lparr> http_method = ''PUT'', path = [''507f1f77bcf86cd799439011''],
                     body = JObj [(''status'', JStr ''completed'')] \<rparr>"

section \<open>Properties of the connection manager\<close>

subsection \<open>Bounded reconnection\<close>

lemma inv_boot: "retry_inv boot"
  by (simp add: retry_inv_def boot_def new_DatabaseManager_def)

lemma inv_schedule: "retry_inv w \<Longrightarrow> retry_inv (scheduleReconnection w)"
  by (auto simp: retry_inv_def scheduleReconnection_def)

lemma inv_flags:
  "retry_inv w \<Longrightarrow>
   retry_inv (w \<lparr> db := (db w) \<lparr> isConnected := b, connectionState := s \<rparr> \<rparr>)"
  by (simp add: retry_inv_def)

lemma inv_on_event: "retry_inv w \<Longrightarrow> e \<noteq> EvConnected \<Longrightarrow> retry_inv (on_event cfg w e)"
  by (cases e) (auto simp: Let_def intro!: inv_schedule inv_flags)

lemma inv_deliver:
  "retry_inv w \<Longrightarrow> EvConnected \<notin> set evs \<Longrightarrow> retry_inv (deliver cfg evs w)"
  unfolding deliver_def
  by (induction evs arbitrary: w) (auto simp: inv_on_event)

lemma connect_returns: "\<exists>w'. connect cfg c w = Inr w'"
  by (simp add: connect_def Let_def split: option.split)

lemma inv_connect:
  "retry_inv w \<Longrightarrow> fails c \<Longrightarrow> connect cfg c w = Inr w' \<Longrightarrow> retry_inv w'"
  by (auto simp: connect_def Let_def fails_def split: option.splits if_splits
           intro!: inv_schedule inv_flags inv_deliver)

lemma inv_pop:
  "retry_inv w \<Longrightarrow> timers w = d # ds \<Longrightarrow>
   retry_inv (w \<lparr> timers := ds, reconnects := reconnects w + 1 \<rparr>)"
  by (simp add: retry_inv_def)

lemma exec_returns: "\<exists>w'. exec cfg s w = Inr w'"
  by (cases s) (auto simp: connect_returns split: list.split)

lemma inv_exec:
  "retry_inv w \<Longrightarrow> failing_step s \<Longrightarrow> exec cfg s w = Inr w' \<Longrightarrow> retry_inv w'"
  by (cases s) (auto split: list.splits intro: inv_connect inv_pop inv_on_event)

lemma inv_run:
  "retry_inv w \<Longrightarrow> \<forall>s\<in>set ss. failing_step s \<Longrightarrow>
   \<exists>w'. run cfg ss w = Inr w' \<and> retry_inv w'"
proof (induction ss arbitrary: w)
  case Nil
  then show ?case by simp
next
  case (Cons s ss)
  obtain w1 where w1: "exec cfg s w = Inr w1" using exec_returns by blast
  with Cons.prems have "retry_inv w1" by (auto intro: inv_exec)
  with Cons w1 show ?case by simp
qed

lemma start_returns:
  assumes "fails c0" and "\<forall>s\<in>set ss. failing_step s"
  shows "\<exists>w. start cfg c0 ss = Inr w \<and> retry_inv w"
proof -
  obtain w0 where w0: "connect cfg c0 boot = Inr w0" using connect_returns by blast
  then have "retry_inv w0" using inv_connect [OF inv_boot assms(1)] by blast
  from inv_run [OF this assms(2)] w0 show ?thesis by (simp add: start_def)
qed

text \<open>
  C2. From a freshly constructed manager, under any run of consecutive failures (failed
  calls of \<open>connect()\<close> and driver events other than \<open>connected\<close>, in any order and
  number, in any environment), the run completes and the retry mechanism has called
  \<open>connect()\<close> at most 5 times; once it has done so 5 times no callback is pending. In
  every state so reached \<open>scheduleReconnection\<close> increments the counter and queues one
  callback with the delay of 5000 ms while the counter is below 5, and changes nothing
  once the counter has reached 5.
\<close>

theorem retry_bound:
  assumes "fails c0" and "\<forall>s\<in>set ss. failing_step s"
  shows "\<exists>w. start cfg c0 ss = Inr w
          \<and> reconnects w \<le> 5
          \<and> (reconnects w = 5 \<longrightarrow> timers w = [])
          \<and> (connectionAttempts (db w) < 5 \<longrightarrow>
               scheduleReconnection w =
                 w \<lparr> db := (db w) \<lparr> connectionAttempts := connectionAttempts (db w) + 1 \<rparr>,
                     timers := timers w @ [5000] \<rparr>)
          \<and> (\<not> connectionAttempts (db w) < 5 \<longrightarrow> scheduleReconnection w = w)"
proof -
  obtain w where w: "start cfg c0 ss = Inr w" and inv: "retry_inv w"
    using start_returns [OF assms] by blast
  from inv have sum: "reconnects w + length (timers w) \<le> 5"
    by (simp add: retry_inv_def)
  then have "reconnects w \<le> 5" by arith
  moreover from sum have "reconnects w = 5 \<longrightarrow> length (timers w) = 0" by arith
  then have "reconnects w = 5 \<longrightarrow> timers w = []" by simp
  moreover from inv have "connectionAttempts (db w) < 5 \<longrightarrow>
      scheduleReconnection w =
        w \<lparr> db := (db w) \<lparr> connectionAttempts := connectionAttempts (db w) + 1 \<rparr>,
            timers := timers w @ [5000] \<rparr>"
    by (simp add: retry_inv_def scheduleReconnection_def)
  moreover from inv have "\<not> connectionAttempts (db w) < 5 \<longrightarrow> scheduleReconnection w = w"
    by (simp add: retry_inv_def scheduleReconnection_def)
  ultimately show ?thesis using w by blast
qed

text \<open>
  The scenario of the specification, in production: the first connection and the five
  retries all fail, a sixth timer step finds nothing pending, and the manager ends in the
  state \<open>exhausted\<close> (counter 5, five calls made by the retry mechanism, nothing queued).
\<close>

lemma six_failures:
  "start production refused
     [TimerFires refused, TimerFires refused, TimerFires refused,
      TimerFires refused, TimerFires refused, TimerFires refused] = Inr exhausted"
  by (simp add: start_def connect_def deliver_def scheduleReconnection_def boot_def
      new_DatabaseManager_def production_def load_config_def or_default_def isDevelopment_def
      refused_def exhausted_def)

theorem retry_bound_witness:
  "fails refused
   \<and> list_all failing_step
        [TimerFires refused, TimerFires refused, TimerFires refused,
         TimerFires refused, TimerFires refused, TimerFires refused]
   \<and> start production refused
        [TimerFires refused, TimerFires refused, TimerFires refused,
         TimerFires refused, TimerFires refused, TimerFires refused] = Inr exhausted
   \<and> reconnects exhausted \<le> 5 \<and> reconnects exhausted = 5 \<and> timers exhausted = []
   \<and> \<not> connectionAttempts (db exhausted) < 5
   \<and> scheduleReconnection exhausted = exhausted"
proof -
  have f: "fails refused" by (simp add: fails_def refused_def)
  have a: "\<forall>s \<in> set [TimerFires refused, TimerFires refused, TimerFires refused,
                      TimerFires refused, TimerFires refused, TimerFires refused]. failing_step s"
    using f by simp
  from retry_bound [OF f a, of production] six_failures f a show ?thesis
    by (simp add: exhausted_def)
qed

subsection \<open>Failure of \<open>connect()\<close>\<close>

lemma schedule_keeps_flags:
  "isConnected (db (scheduleReconnection w)) = isConnected (db w)"
  "connectionState (db (scheduleReconnection w)) = connectionState (db w)"
  by (simp_all add: scheduleReconnection_def)

text \<open>
  C3, as the code has it. \<open>connect()\<close> returns normally whatever the driver does. When
  the attempt is rejected the state is \<open>error\<close> and the flag is false, and one retry is
  queued (counter incremented) exactly when the environment is not \<open>development\<close> and
  the counter is still below \<open>maxRetries\<close>; in development, or once the counter has
  reached the maximum, nothing is queued and the counter stays.
\<close>

theorem connect_never_throws:
  "\<exists>w'. connect cfg c w = Inr w'
     \<and> (rejection c \<noteq> None \<longrightarrow>
          connectionState (db w') = ''error'' \<and> \<not> isConnected (db w')
          \<and> (let w1 = deliver cfg (emitted c) w in
               if \<not> isDevelopment cfg \<and> connectionAttempts (db w1) < maxRetries (db w1)
               then timers w' = timers w1 @ [retryDelay (db w1)]
                    \<and> connectionAttempts (db w') = connectionAttempts (db w1) + 1
               else timers w' = timers w1
                    \<and> connectionAttempts (db w') = connectionAttempts (db w1)))"
  by (cases "rejection c"; cases "isDevelopment cfg";
      cases "connectionAttempts (db (deliver cfg (emitted c) w))
               < maxRetries (db (deliver cfg (emitted c) w))")
     (simp_all add: connect_def Let_def scheduleReconnection_def)

theorem connect_never_throws_witness:
  "rejection refused \<noteq> None
   \<and> connect production refused boot =
       Inr \<lparr> db = \<lparr> isConnected = False, connectionState = ''error'', connectionAttempts = 1,
                    maxRetries = 5, retryDelay = 5000 \<rparr>,
             timers = [5000], reconnects = 0 \<rparr>
   \<and> connect development refused boot =
       Inr \<lparr> db = \<lparr> isConnected = False, connectionState = ''error'', connectionAttempts = 0,
                    maxRetries = 5, retryDelay = 5000 \<rparr>,
             timers = [], reconnects = 0 \<rparr>"
  using connect_never_throws [of production refused boot]
  by (simp add: connect_def deliver_def scheduleReconnection_def boot_def
      new_DatabaseManager_def production_def development_def load_config_def or_default_def
      isDevelopment_def refused_def)

text \<open>
  C3 as stated (a retry is queued exactly when the mode is production-like) fails
  in production after the fifth retry: the state \<open>exhausted\<close> is reached by the first
  call and five failed retries, and a failing \<open>connect()\<close> in it queues nothing.
\<close>

theorem connect_schedules_counterexample:
  "\<not> isDevelopment production \<and> isProduction production
   \<and> rejection refused \<noteq> None
   \<and> start production refused
        [TimerFires refused, TimerFires refused, TimerFires refused,
         TimerFires refused, TimerFires refused] = Inr exhausted
   \<and> connect production refused exhausted = Inr exhausted
   \<and> timers exhausted = []"
  by (simp add: start_def connect_def deliver_def scheduleReconnection_def boot_def
      new_DatabaseManager_def production_def load_config_def or_default_def isDevelopment_def
      isProduction_def refused_def exhausted_def)

subsection \<open>\<open>disconnect()\<close>\<close>

lemma disconnect_returns: "disconnect cfg c w = Inr (deliver cfg (emitted c) w)"
  by (simp add: disconnect_def Let_def split: option.split)

lemma deliver_snoc: "deliver cfg (evs @ [e]) w = on_event cfg (deliver cfg evs w) e"
  by (simp add: deliver_def)

lemma on_disconnected_flags:
  "\<not> isConnected (db (on_event cfg w EvDisconnected))"
  "connectionState (db (on_event cfg w EvDisconnected)) = ''disconnected''"
  by (simp_all add: Let_def schedule_keeps_flags)

text \<open>
  C4, as the code has it. \<open>disconnect()\<close> never throws: a failing close is swallowed.
  It writes no field of the manager itself; the state changes only through the handlers
  of the driver's events. When the driver emits nothing during the close (whether the
  close succeeds or fails) the manager is left exactly as it was. When the close ends
  with the driver's \<open>disconnected\<close> event, the state is \<open>disconnected\<close> and the flag
  false whatever the state was before, and a second call, during which the driver emits
  nothing or \<open>disconnected\<close> again, leaves state and flag there.
\<close>

theorem disconnect_swallows:
  "\<exists>w'. disconnect cfg c w = Inr w'
     \<and> (emitted c = [] \<longrightarrow> w' = w)
     \<and> ((\<exists>evs. emitted c = evs @ [EvDisconnected]) \<longrightarrow>
          \<not> isConnected (db w') \<and> connectionState (db w') = ''disconnected''
          \<and> (\<forall>c2. emitted c2 = [] \<or> emitted c2 = [EvDisconnected] \<longrightarrow>
                (\<exists>w''. disconnect cfg c2 w' = Inr w'' \<and> \<not> isConnected (db w'')
                       \<and> connectionState (db w'') = ''disconnected'')))"
proof -
  let ?w' = "deliver cfg (emitted c) w"
  have 1: "disconnect cfg c w = Inr ?w'" by (rule disconnect_returns)
  have 2: "emitted c = [] \<longrightarrow> ?w' = w" by (simp add: deliver_def)
  have 3: "(\<exists>evs. emitted c = evs @ [EvDisconnected]) \<longrightarrow>
          \<not> isConnected (db ?w') \<and> connectionState (db ?w') = ''disconnected''
          \<and> (\<forall>c2. emitted c2 = [] \<or> emitted c2 = [EvDisconnected] \<longrightarrow>
                (\<exists>w''. disconnect cfg c2 ?w' = Inr w'' \<and> \<not> isConnected (db w'')
                       \<and> connectionState (db w'') = ''disconnected''))"
  proof
    assume "\<exists>evs. emitted c = evs @ [EvDisconnected]"
    then obtain evs where "emitted c = evs @ [EvDisconnected]" ..
    then have "?w' = on_event cfg (deliver cfg evs w) EvDisconnected"
      by (simp only: deliver_snoc)
    then have fl: "\<not> isConnected (db ?w')" "connectionState (db ?w') = ''disconnected''"
      by (simp_all only: on_disconnected_flags simp_thms)
    have "\<exists>w''. disconnect cfg c2 ?w' = Inr w'' \<and> \<not> isConnected (db w'')
                       \<and> connectionState (db w'') = ''disconnected''"
      if "emitted c2 = [] \<or> emitted c2 = [EvDisconnected]" for c2
    proof -
      from that have "\<not> isConnected (db (deliver cfg (emitted c2) ?w'))
          \<and> connectionState (db (deliver cfg (emitted c2) ?w')) = ''disconnected''"
      proof
        assume "emitted c2 = []" with fl show ?thesis by (simp add: deliver_def)
      next
        assume "emitted c2 = [EvDisconnected]"
        then have "deliver cfg (emitted c2) ?w' = on_event cfg ?w' EvDisconnected"
          by (simp add: deliver_def)
        then show ?thesis by (simp only: on_disconnected_flags simp_thms)
      qed
      then show ?thesis by (simp add: disconnect_returns)
    qed
    with fl show "\<not> isConnected (db ?w') \<and> connectionState (db ?w') = ''disconnected''
          \<and> (\<forall>c2. emitted c2 = [] \<or> emitted c2 = [EvDisconnected] \<longrightarrow>
                (\<exists>w''. disconnect cfg c2 ?w' = Inr w'' \<and> \<not> isConnected (db w'')
                       \<and> connectionState (db w'') = ''disconnected''))" by blast
  qed
  from 1 2 3 show ?thesis by blast
qed

theorem disconnect_swallows_witness:
  "emitted closing = [] @ [EvDisconnected]
   \<and> disconnect development closing online =
       Inr \<lparr> db = \<lparr> isConnected = False, connectionState = ''disconnected'',
                    connectionAttempts = 0, maxRetries = 5, retryDelay = 5000 \<rparr>,
             timers = [], reconnects = 0 \<rparr>
   \<and> emitted nothing_to_close = []
   \<and> disconnect development nothing_to_close
        \<lparr> db = \<lparr> isConnected = False, connectionState = ''disconnected'',
                 connectionAttempts = 0, maxRetries = 5, retryDelay = 5000 \<rparr>,
          timers = [], reconnects = 0 \<rparr> =
       Inr \<lparr> db = \<lparr> isConnected = False, connectionState = ''disconnected'',
                    connectionAttempts = 0, maxRetries = 5, retryDelay = 5000 \<rparr>,
             timers = [], reconnects = 0 \<rparr>"
  using disconnect_swallows [of development closing online]
  by (simp add: disconnect_def deliver_def closing_def nothing_to_close_def online_def
      development_def load_config_def or_default_def isProduction_def)

text \<open>
  C4 as stated (after \<open>disconnect()\<close> the state is always \<open>disconnected\<close>)
  fails when the close is rejected while the manager is connected: the error is
  swallowed and the manager still says \<open>connected\<close>. It also fails after a failed first
  connection, where there is nothing to close and the state stays \<open>error\<close>.
\<close>

theorem disconnect_state_counterexample:
  "disconnect development close_fails online = Inr online
   \<and> isConnected (db online) \<and> connectionState (db online) = ''connected''
   \<and> disconnect development nothing_to_close offline = Inr offline
   \<and> connectionState (db offline) = ''error''"
  by (simp add: disconnect_def deliver_def close_fails_def nothing_to_close_def online_def
      offline_def)

section \<open>Properties of the middleware and the routes\<close>

subsection \<open>The connection gate\<close>

lemma toLowerCase_literals:
  "toLowerCase ''api'' = ''api''" "toLowerCase ''projects'' = ''projects''"
  "toLowerCase ''health'' = ''health''" "toLowerCase ''version'' = ''version''"
  "toLowerCase ''status'' = ''status''" "toLowerCase ''docs'' = ''docs''"
  by (simp_all add: toLowerCase_def)

lemma apiRoutes_no_projects:
  "toLowerCase p = ''projects'' \<Longrightarrow>
   apiRoutes cfg rt conn pgs w (req \<lparr> path := p # rest \<rparr>) = None"
  by (simp add: apiRoutes_def matches_def toLowerCase_literals)

lemma apiRoutes_no_api:
  "path req = a # rest' \<Longrightarrow> toLowerCase a = ''api'' \<Longrightarrow>
   apiRoutes cfg rt conn pgs w req = None"
  by (simp add: apiRoutes_def matches_def toLowerCase_literals)

lemma mounted_api:
  "path req = a # rest' \<Longrightarrow> toLowerCase a = ''api'' \<Longrightarrow>
   mounted [''api''] req = Some (req \<lparr> path := rest' \<rparr>)"
  by (simp add: mounted_def matches_def toLowerCase_literals)

lemma mounted_api_projects:
  "path req = a # p # rest \<Longrightarrow> toLowerCase a = ''api'' \<Longrightarrow> toLowerCase p = ''projects'' \<Longrightarrow>
   mounted [''api'', ''projects''] req = Some (req \<lparr> path := rest \<rparr>)"
  by (simp add: mounted_def matches_def toLowerCase_literals)

lemma dispatch_gate:
  assumes p: "path req = a # p # rest"
    and a: "toLowerCase a = ''api''" and pr: "toLowerCase p = ''projects''"
  shows "dispatch cfg rt conn pgs rateLimiter router w req =
           (case checkDatabaseConnection w (now_iso rt) of
              Some r \<Rightarrow> Replied r
            | None \<Rightarrow>
                (case setupRoutes cfg rt conn pgs rateLimiter router w req of
                   Some out \<Rightarrow> out
                 | None \<Rightarrow> Replied (notFoundHandler req (original_url req) (now_iso rt))))"
proof -
  have 1: "apiRoutes cfg rt conn pgs w req = None"
    using p a by (rule apiRoutes_no_api)
  have 2: "mounted [''api''] req = Some (req \<lparr> path := p # rest \<rparr>)"
    using p a by (rule mounted_api)
  have 3: "mounted [''api'', ''projects''] req = Some (req \<lparr> path := rest \<rparr>)"
    using p a pr by (rule mounted_api_projects)
  have 4: "apiRoutes cfg rt conn pgs w (req \<lparr> path := p # rest \<rparr>) = None"
    using pr by (rule apiRoutes_no_projects)
  show ?thesis
    by (cases "checkDatabaseConnection w (now_iso rt)")
       (simp_all add: dispatch_def setupRoutes_def 1 2 3 4)
qed

lemma passed_request:
  "setupCommonMiddleware ts serveStatic rq = Passed req \<Longrightarrow>
   req = \<lparr> http_method = inc_method rq, path = inc_path rq, body = body req \<rparr>
   \<and> inc_payload rq = Parsed (body req)"
  by (auto simp: setupCommonMiddleware_def Let_def
      split: option.splits payload.splits passage.splits)

lemma passes:
  "inc_method rq \<noteq> ''OPTIONS'' \<Longrightarrow> inc_payload rq = Parsed b \<Longrightarrow>
   serveStatic \<lparr> http_method = inc_method rq, path = inc_path rq, body = b \<rparr> = Passed () \<Longrightarrow>
   setupCommonMiddleware ts serveStatic rq
     = Passed \<lparr> http_method = inc_method rq, path = inc_path rq, body = b \<rparr>"
  by (simp add: setupCommonMiddleware_def corsMiddleware_def)

text \<open>
  C1, as the code has it. While the manager's flag is false, no request under
  \<open>/api/projects\<close> (any method, any further path, any payload, the prefix in any case
  of its letters) reaches the project router, and with it a repository operation:
  the application never ends with a result of the router. A request that the common
  middleware passes on (it is not an \<open>OPTIONS\<close> request, its payload is read and
  parsed, and no static file answers it) is answered by \<open>checkDatabaseConnection\<close>
  itself with status 503 and \<open>success: false\<close>.
\<close>

theorem gate_closed:
  assumes c: "\<not> isConnected (db w)"
    and p: "inc_path rq = a # p # rest"
    and a: "toLowerCase a = ''api''" and pr: "toLowerCase p = ''projects''"
  shows "(\<forall>x. createApp cfg rt conn pgs serveStatic rateLimiter router w rq \<noteq> Inr (Routed x))
       \<and> (inc_method rq \<noteq> ''OPTIONS'' \<and> inc_payload rq = Parsed b
            \<and> serveStatic \<lparr> http_method = inc_method rq, path = inc_path rq, body = b \<rparr>
                = Passed ()
          \<longrightarrow> (\<exists>r. createApp cfg rt conn pgs serveStatic rateLimiter router w rq
                       = Inr (Replied r)
                 \<and> checkDatabaseConnection w (now_iso rt) = Some r
                 \<and> status r = 503
                 \<and> get_prop ''success'' (content r) = Some (JBool False)))"
proof -
  obtain g where g: "checkDatabaseConnection w (now_iso rt) = Some g"
      "status g = 503" "get_prop ''success'' (content g) = Some (JBool False)"
    using c by (simp add: checkDatabaseConnection_def)
  have d: "dispatch cfg rt conn pgs rateLimiter router w req = Replied g"
    if "path req = inc_path rq" for req
    using that p a pr g(1) by (simp add: dispatch_gate [where a = a and p = p and rest = rest])
  have 1: "createApp cfg rt conn pgs serveStatic rateLimiter router w rq \<noteq> Inr (Routed x)"
    for x
  proof (cases "setupCommonMiddleware (now_iso rt) serveStatic rq")
    case (Answered r)
    then show ?thesis by (simp add: createApp_def)
  next
    case (Raised e)
    then show ?thesis
      by (cases "errorHandler cfg (now_iso rt) e") (simp_all add: createApp_def)
  next
    case (Passed req)
    from passed_request [OF this] have "path req = inc_path rq"
      by (cases req) simp
    from d [OF this] Passed show ?thesis by (simp add: createApp_def)
  qed
  have 2: "\<exists>r. createApp cfg rt conn pgs serveStatic rateLimiter router w rq = Inr (Replied r)
                 \<and> checkDatabaseConnection w (now_iso rt) = Some r
                 \<and> status r = 503
                 \<and> get_prop ''success'' (content r) = Some (JBool False)"
    if "inc_method rq \<noteq> ''OPTIONS''" "inc_payload rq = Parsed b"
       "serveStatic \<lparr> http_method = inc_method rq, path = inc_path rq, body = b \<rparr> = Passed ()"
  proof -
    have "createApp cfg rt conn pgs serveStatic rateLimiter router w rq = Inr (Replied g)"
      using that
        passes [where serveStatic = serveStatic and rq = rq and b = b and ts = "now_iso rt"]
        d [of "\<lparr> http_method = inc_method rq, path = inc_path rq, body = b \<rparr>"]
      by (simp add: createApp_def)
    with g show ?thesis by blast
  qed
  from 1 2 show ?thesis by blast
qed

theorem gate_closed_witness:
  "\<not> isConnected (db offline)
   \<and> inc_path incoming_get_one = ''API'' # ''Projects'' # [''507f1f77bcf86cd799439011'']
   \<and> toLowerCase ''API'' = ''api'' \<and> toLowerCase ''Projects'' = ''projects''
   \<and> inc_method incoming_get_one \<noteq> ''OPTIONS''
   \<and> inc_payload incoming_get_one = Parsed (JObj [])
   \<and> no_files \<lparr> http_method = inc_method incoming_get_one, path = inc_path incoming_get_one,
                 body = JObj [] \<rparr> = Passed ()
   \<and> createApp development quiet_runtime no_connection pages no_files no_limit echo offline
        incoming_get_one
       = Inr (Replied \<lparr> status = 503,
           content = JObj [(''success'', JBool False),
             (''message'', JStr ''Database service unavailable. Please try again later.''),
             (''error'', JStr ''MongoDB connection not established''),
             (''timestamp'', JStr ''2025-10-30T05:14:29.729Z'')] \<rparr>)"
proof -
  have o: "\<not> isConnected (db offline)" by (simp add: offline_def)
  have p: "inc_path incoming_get_one = ''API'' # ''Projects'' # [''507f1f77bcf86cd799439011'']"
    by (simp add: incoming_get_one_def)
  have l: "toLowerCase ''API'' = ''api''" "toLowerCase ''Projects'' = ''projects''"
    by (simp_all add: toLowerCase_def)
  have m: "inc_method incoming_get_one \<noteq> ''OPTIONS''"
    by (simp add: incoming_get_one_def)
  have b: "inc_payload incoming_get_one = Parsed (JObj [])"
    by (simp add: incoming_get_one_def)
  have f: "no_files \<lparr> http_method = inc_method incoming_get_one,
      path = inc_path incoming_get_one, body = JObj [] \<rparr> = Passed ()"
    by (simp add: no_files_def)
  have g: "checkDatabaseConnection offline (now_iso quiet_runtime)
       = Some \<lparr> status = 503,
           content = JObj [(''success'', JBool False),
             (''message'', JStr ''Database service unavailable. Please try again later.''),
             (''error'', JStr ''MongoDB connection not established''),
             (''timestamp'', JStr ''2025-10-30T05:14:29.729Z'')] \<rparr>"
    by (simp add: checkDatabaseConnection_def offline_def quiet_runtime_def)
  note q = gate_closed [OF o p l, where cfg = development and rt = quiet_runtime
      and conn = no_connection and pgs = pages and serveStatic = no_files
      and rateLimiter = no_limit and router = echo and b = "JObj []"]
  from q m b f g have "createApp development quiet_runtime no_connection pages no_files
      no_limit echo offline incoming_get_one
       = Inr (Replied \<lparr> status = 503,
           content = JObj [(''success'', JBool False),
             (''message'', JStr ''Database service unavailable. Please try again later.''),
             (''error'', JStr ''MongoDB connection not established''),
             (''timestamp'', JStr ''2025-10-30T05:14:29.729Z'')] \<rparr>)"
    by auto
  with o p l m b f show ?thesis by blast
qed

text \<open>
  C1 as stated gives every request under \<open>/api/projects\<close> status 503 while the flag is
  false. The body parsers run before the gate: a \<open>POST /api/projects\<close> whose JSON
  payload does not parse goes from the parser to \<open>errorHandler\<close> and is answered 500.
\<close>

theorem gate_closed_counterexample:
  "\<not> isConnected (db offline)
   \<and> inc_method malformed_post = ''POST''
   \<and> inc_path malformed_post = [''api'', ''projects'']
   \<and> createApp production quiet_runtime no_connection pages no_files no_limit echo offline
        malformed_post
       = Inr (Replied \<lparr> status = 500,
           content = JObj [(''success'', JBool False),
             (''message'', JStr ''Internal server error''),
             (''timestamp'', JStr ''2025-10-30T05:14:29.729Z'')] \<rparr>)"
  by (simp add: offline_def malformed_post_def createApp_def setupCommonMiddleware_def
      corsMiddleware_def errorHandler_def Let_def syntax_error_def production_def
      load_config_def or_default_def isDevelopment_def quiet_runtime_def)

subsection \<open>The error handler\<close>




text \<open>
  Two inputs outside the statement above. The branch for duplicate keys compares the
  name of the error with \<open>MongoError\<close>: an error of code 11000 under the name
  \<open>MongoServerError\<close> is answered 500. A \<open>ValidationError\<close> without an \<open>errors\<close> table
  makes the handler raise.
\<close>

lemma errorHandler_duplicate_key_name:
  "errorHandler production ''2025-10-30T05:14:29.729Z'' duplicate_key_error
     = Inr \<lparr> status = 500,
         content = JObj [(''success'', JBool False),
           (''message'', JStr ''Internal server error''),
           (''timestamp'', JStr ''2025-10-30T05:14:29.729Z'')] \<rparr>"
  by (simp add: errorHandler_def Let_def duplicate_key_error_def
      production_def load_config_def or_default_def isDevelopment_def)

lemma errorHandler_raises:
  "errorHandler production ''2025-10-30T05:14:29.729Z'' bare_validation_error
     = Inl ''TypeError: Cannot convert undefined or null to object''"
  by (simp add: errorHandler_def Let_def bare_validation_error_def)

subsection \<open>The health endpoint\<close>

text \<open>
  C10. Whatever the state of the manager, \<open>GET /health\<close> is answered by the health
  handler without passing the connection gate. When the runtime readings succeed the
  status is 200 with \<open>success: true\<close>, and the body's \<open>database\<close> object carries the
  flag, the state and the result of the health probe (which is false whenever the flag
  is false). The status differs from 200 only when a reading raised while the report was
  built; it is then 500 with \<open>success: false\<close>.
\<close>

theorem health_reports:
  "(\<forall>mem. process_memoryUsage rt = Inr mem \<longrightarrow>
      status (health cfg rt conn w) = 200
      \<and> get_prop ''success'' (content (health cfg rt conn w)) = Some (JBool True)
      \<and> (\<exists>database. get_prop ''database'' (content (health cfg rt conn w)) = Some database
            \<and> get_prop ''connected'' database = Some (JBool (isConnected (db w)))
            \<and> get_prop ''state'' database = Some (JStr (connectionState (db w)))
            \<and> get_prop ''healthy'' database = Some (JBool (isHealthy conn w))))
   \<and> (\<not> isConnected (db w) \<longrightarrow> \<not> isHealthy conn w)
   \<and> (status (health cfg rt conn w) \<noteq> 200 \<longrightarrow>
        status (health cfg rt conn w) = 500
        \<and> (\<exists>msg. process_memoryUsage rt = Inl msg)
        \<and> get_prop ''success'' (content (health cfg rt conn w)) = Some (JBool False))
   \<and> (http_method req = ''GET'' \<and> path req = [''health''] \<longrightarrow>
        dispatch cfg rt conn pgs rateLimiter router w req
          = Replied (health cfg rt conn w))"
proof -
  have a: "status (health cfg rt conn w) = 200
      \<and> get_prop ''success'' (content (health cfg rt conn w)) = Some (JBool True)
      \<and> (\<exists>database. get_prop ''database'' (content (health cfg rt conn w)) = Some database
            \<and> get_prop ''connected'' database = Some (JBool (isConnected (db w)))
            \<and> get_prop ''state'' database = Some (JStr (connectionState (db w)))
            \<and> get_prop ''healthy'' database = Some (JBool (isHealthy conn w)))"
    if "process_memoryUsage rt = Inr mem" for mem
    using that by (simp add: health_def Let_def getStatus_def opt_prop_def)
  have b: "\<not> isConnected (db w) \<longrightarrow> \<not> isHealthy conn w"
    by (simp add: isHealthy_def)
  have c: "status (health cfg rt conn w) \<noteq> 200 \<longrightarrow>
        status (health cfg rt conn w) = 500
        \<and> (\<exists>msg. process_memoryUsage rt = Inl msg)
        \<and> get_prop ''success'' (content (health cfg rt conn w)) = Some (JBool False)"
    by (cases "process_memoryUsage rt") (simp_all add: health_def Let_def)
  have d: "http_method req = ''GET'' \<and> path req = [''health''] \<longrightarrow>
        dispatch cfg rt conn pgs rateLimiter router w req
          = Replied (health cfg rt conn w)"
    by (simp add: dispatch_def setupRoutes_def apiRoutes_def matches_def toLowerCase_literals)
  from a b c d show ?thesis by blast
qed

lemma quiet_health:
  "health development quiet_runtime no_connection offline =
     \<lparr> status = 200,
       content = JObj
         [(''success'', JBool True),
          (''status'', JStr ''Server is running''),
          (''timestamp'', JStr ''2025-10-30T05:14:29.729Z''),
          (''uptime'', JObj [(''raw'', JNum 3600), (''formatted'', JStr ''1h'')]),
          (''database'', JObj [(''connected'', JBool False), (''healthy'', JBool False),
                              (''state'', JStr ''error'')]),
          (''server'', JObj [(''environment'', JStr ''development''),
                            (''nodeVersion'', JStr ''v18.17.0''),
                            (''platform'', JStr ''linux''),
                            (''arch'', JStr ''x64''),
                            (''pid'', JNum 4242)]),
          (''memory'', JObj [(''rss'', JNum 50000000), (''heapTotal'', JNum 20000000),
                            (''heapUsed'', JNum 15000000), (''external'', JNum 1000000),
                            (''formatted'', JObj [(''rss'', JStr ''n/a''),
                               (''heapTotal'', JStr ''n/a''), (''heapUsed'', JStr ''n/a''),
                               (''external'', JStr ''n/a'')])])] \<rparr>"
  by (simp add: health_def Let_def getStatus_def isHealthy_def opt_prop_def quiet_runtime_def
      no_connection_def offline_def development_def load_config_def or_default_def)

lemma broken_health:
  "status (health development broken_runtime no_connection offline) = 500"
  by (simp add: health_def Let_def broken_runtime_def quiet_runtime_def)


theorem health_reports_witness:
  "process_memoryUsage quiet_runtime =
     Inr [(''rss'', JNum 50000000), (''heapTotal'', JNum 20000000),
          (''heapUsed'', JNum 15000000), (''external'', JNum 1000000)]
   \<and> \<not> isConnected (db offline)
   \<and> status (health development quiet_runtime no_connection offline) = 200
   \<and> get_prop ''success'' (content (health development quiet_runtime no_connection offline))
       = Some (JBool True)
   \<and> get_prop ''database'' (content (health development quiet_runtime no_connection offline))
       = Some (JObj [(''connected'', JBool False), (''healthy'', JBool False),
                     (''state'', JStr ''error'')])
   \<and> http_method get_health = ''GET'' \<and> path get_health = [''health'']
   \<and> dispatch development quiet_runtime no_connection pages no_limit echo offline get_health
       = Replied (health development quiet_runtime no_connection offline)
   \<and> status (health development broken_runtime no_connection offline) \<noteq> 200
   \<and> status (health development broken_runtime no_connection offline) = 500"
proof -
  have m: "process_memoryUsage quiet_runtime =
     Inr [(''rss'', JNum 50000000), (''heapTotal'', JNum 20000000),
          (''heapUsed'', JNum 15000000), (''external'', JNum 1000000)]"
    by (simp add: quiet_runtime_def)
  have o: "\<not> isConnected (db offline)" by (simp add: offline_def)
  have g: "http_method get_health = ''GET'' \<and> path get_health = [''health'']"
    by (simp add: get_health_def)
  have d: "get_prop ''database''
             (content (health development quiet_runtime no_connection offline))
       = Some (JObj [(''connected'', JBool False), (''healthy'', JBool False),
                     (''state'', JStr ''error'')])"
    by (simp add: quiet_health)
  have b: "status (health development broken_runtime no_connection offline) \<noteq> 200"
    by (simp add: broken_health)
  note q = health_reports [where rt = quiet_runtime and cfg = development
      and conn = no_connection and w = offline and req = get_health and pgs = pages
      and rateLimiter = no_limit and router = echo]
  note r = health_reports [where rt = broken_runtime and cfg = development
      and conn = no_connection and w = offline and req = get_health and pgs = pages
      and rateLimiter = no_limit and router = echo]
  from q m have 1: "status (health development quiet_runtime no_connection offline) = 200"
    by blast
  from q m have 2: "get_prop ''success''
      (content (health development quiet_runtime no_connection offline)) = Some (JBool True)"
    by blast
  from q g have 3: "dispatch development quiet_runtime no_connection pages no_limit echo
      offline get_health = Replied (health development quiet_runtime no_connection offline)"
    by blast
  from r b have 4: "status (health development broken_runtime no_connection offline) = 500"
    by blast
  from m o 1 2 d g 3 b 4 show ?thesis by blast
qed

section \<open>Properties of the project resource\<close>

subsection \<open>The identifier shape\<close>

lemma repeat_class_iff:
  "repeat_class n s = Some r \<longleftrightarrow>
     (\<exists>p. s = p @ r \<and> length p = n \<and> (\<forall>c\<in>set p. hex_class c))"
proof (induction n s rule: repeat_class.induct)
  case (1 s)
  then show ?case by simp
next
  case (2 n)
  then show ?case by simp
next
  case (3 n c cs)
  show ?case
  proof (cases "hex_class c")
    case True
    then show ?thesis
      using 3 by (auto simp: length_Suc_conv Cons_eq_append_conv)
  next
    case False
    then show ?thesis by (auto simp: length_Suc_conv Cons_eq_append_conv)
  qed
qed

lemma hex_class_chars: "hex_class c \<longleftrightarrow> c \<in> set ''0123456789abcdefABCDEF''"
proof
  assume "c \<in> set ''0123456789abcdefABCDEF''"
  then show "hex_class c" by (auto simp: hex_class_def)
next
  assume h: "hex_class c"
  define n where "n = (of_char c :: nat)"
  from h have "n \<in> {48..57} \<union> {97..102} \<union> {65..70}"
    by (simp add: hex_class_def n_def Let_def)
  then have "n \<in> {48,49,50,51,52,53,54,55,56,57,97,98,99,100,101,102,65,66,67,68,69,70}"
    by (simp only: Un_iff atLeastAtMost_iff insert_iff empty_iff) presburger
  also have "{48,49,50,51,52,53,54,55,56,57,97,98,99,100,101,102,65,66,67,68,69,70}
      = (of_char ` set ''0123456789abcdefABCDEF'' :: nat set)"
    by (simp only: list.set image_insert image_empty of_char_Char of_char_of horner_sum_simps)
       simp
  finally have "(of_char c :: nat) \<in> of_char ` set ''0123456789abcdefABCDEF''"
    by (simp only: n_def)
  then show "c \<in> set ''0123456789abcdefABCDEF''"
    by (simp only: inj_image_mem_iff [OF inj_of_char])
qed

lemma isValidObjectId_iff:
  "isValidObjectId s \<longleftrightarrow>
     length s = 24 \<and> (\<forall>c\<in>set s. c \<in> set ''0123456789abcdefABCDEF'')"
  by (auto simp: isValidObjectId_def repeat_class_iff hex_class_chars)

lemma shaped_valid: "isValidObjectId s = shaped s"
  by (simp add: isValidObjectId_iff shaped_def list_all_iff)

lemma gate_open:
  assumes "isConnected (db w)" and p: "path req = ''api'' # ''projects'' # rest"
    and r: "router (req \<lparr> path := rest \<rparr>) = Some x"
  shows "dispatch cfg rt conn pgs rateLimiter router w req = Routed x"
proof -
  have 1: "apiRoutes cfg rt conn pgs w req = None"
    using p by (simp add: apiRoutes_no_api toLowerCase_literals)
  have 2: "mounted [''api''] req = Some (req \<lparr> path := ''projects'' # rest \<rparr>)"
    using p by (simp add: mounted_api toLowerCase_literals)
  have 3: "mounted [''api'', ''projects''] req = Some (req \<lparr> path := rest \<rparr>)"
    using p by (simp add: mounted_api_projects toLowerCase_literals)
  have 4: "apiRoutes cfg rt conn pgs w (req \<lparr> path := ''projects'' # rest \<rparr>) = None"
    by (simp add: apiRoutes_no_projects toLowerCase_literals)
  show ?thesis
    using assms(1) r
    by (simp add: dispatch_def setupRoutes_def 1 2 3 4 checkDatabaseConnection_def)
qed

text \<open>
  C9. \<open>isValidObjectId\<close> accepts exactly the strings of 24 hexadecimal characters. For
  an identifier that is not of this shape, the handlers of \<open>GET\<close>, \<open>PUT\<close> and
  \<open>DELETE /api/projects/:id\<close> answer with the validation failure, status 400 and
  \<open>success: false\<close>, leave the collection as it is and invoke no repository operation;
  for an identifier of the shape each of them invokes its repository operation with that
  identifier. With the gate open the application hands the request to these handlers. A
  \<open>CastError\<close> that reaches \<open>errorHandler\<close> is answered 400 as well.
\<close>

theorem malformed_id_short_circuits:
  "isValidObjectId ident = shaped ident
   \<and> (\<not> shaped ident \<longrightarrow>
        handle_getById connected ts st ident = (failure_response ts invalid_id, st, [])
        \<and> handle_update connected now ts st ident b = (failure_response ts invalid_id, st, [])
        \<and> handle_delete connected ts st ident = (failure_response ts invalid_id, st, [])
        \<and> status (failure_response ts invalid_id) = 400
        \<and> get_prop ''success'' (content (failure_response ts invalid_id)) = Some (JBool False))
   \<and> (shaped ident \<longrightarrow>
        (\<exists>r. handle_getById connected ts st ident = (r, st, [CallGetById ident]))
        \<and> (\<exists>r st'. handle_update connected now ts st ident b
                      = (r, st', [CallUpdate ident (sanitize b)]))
        \<and> (\<exists>r st'. handle_delete connected ts st ident = (r, st', [CallDelete ident])))
   \<and> projectRoutes connected newId now ts st \<lparr> http_method = ''GET'', path = [ident], body = b \<rparr>
       = Some (handle_getById connected ts st ident)
   \<and> projectRoutes connected newId now ts st \<lparr> http_method = ''PUT'', path = [ident], body = b \<rparr>
       = Some (handle_update connected now ts st ident b)
   \<and> projectRoutes connected newId now ts st
        \<lparr> http_method = ''DELETE'', path = [ident], body = b \<rparr>
       = Some (handle_delete connected ts st ident)
   \<and> (isConnected (db w) \<longrightarrow>
        dispatch cfg rt conn pgs rateLimiter (projectRoutes True newId now ts st) w
          \<lparr> http_method = ''GET'', path = [''api'', ''projects'', ident], body = b \<rparr>
        = Routed (handle_getById True ts st ident))
   \<and> (err_name e = ''CastError'' \<longrightarrow>
        (\<exists>r. errorHandler cfg ts e = Inr r \<and> status r = 400))"
proof -
  have 1: "isValidObjectId ident = shaped ident" by (rule shaped_valid)
  have 2: "\<not> shaped ident \<longrightarrow>
        handle_getById connected ts st ident = (failure_response ts invalid_id, st, [])
        \<and> handle_update connected now ts st ident b = (failure_response ts invalid_id, st, [])
        \<and> handle_delete connected ts st ident = (failure_response ts invalid_id, st, [])
        \<and> status (failure_response ts invalid_id) = 400
        \<and> get_prop ''success'' (content (failure_response ts invalid_id)) = Some (JBool False)"
    by (simp add: handle_getById_def handle_update_def handle_delete_def 1
        failure_response_def invalid_id_def)
  have 3: "shaped ident \<longrightarrow>
        (\<exists>r. handle_getById connected ts st ident = (r, st, [CallGetById ident]))
        \<and> (\<exists>r st'. handle_update connected now ts st ident b
                      = (r, st', [CallUpdate ident (sanitize b)]))
        \<and> (\<exists>r st'. handle_delete connected ts st ident = (r, st', [CallDelete ident]))"
    by (auto simp: handle_getById_def handle_update_def handle_delete_def 1 Let_def
        split: sum.split prod.split)
  have 4: "projectRoutes connected newId now ts st
        \<lparr> http_method = ''GET'', path = [ident], body = b \<rparr>
       = Some (handle_getById connected ts st ident)"
    "projectRoutes connected newId now ts st \<lparr> http_method = ''PUT'', path = [ident], body = b \<rparr>
       = Some (handle_update connected now ts st ident b)"
    "projectRoutes connected newId now ts st
        \<lparr> http_method = ''DELETE'', path = [ident], body = b \<rparr>
       = Some (handle_delete connected ts st ident)"
    by (simp_all add: projectRoutes_def)
  have 5: "err_name e = ''CastError'' \<longrightarrow>
        (\<exists>r. errorHandler cfg ts e = Inr r \<and> status r = 400)"
    by (simp add: errorHandler_def Let_def)
  have 6: "isConnected (db w) \<longrightarrow>
        dispatch cfg rt conn pgs rateLimiter (projectRoutes True newId now ts st) w
          \<lparr> http_method = ''GET'', path = [''api'', ''projects'', ident], body = b \<rparr>
        = Routed (handle_getById True ts st ident)"
    by (auto intro!: gate_open [where rest = "[ident]"] simp: projectRoutes_def)
  from 1 2 3 4 5 6 show ?thesis by blast
qed

lemma valid_p1_id: "isValidObjectId ''507f1f77bcf86cd799439011''"
  by (simp add: shaped_valid shaped_def)

lemma lookup_p1:
  "handle_getById True ''t0'' [p1_doc] ''507f1f77bcf86cd799439011''
     = (success_response 200 ''Project retrieved successfully'' (JObj p1_doc), [p1_doc],
        [CallGetById ''507f1f77bcf86cd799439011''])"
  by (simp add: handle_getById_def valid_p1_id getById_def find_doc_def has_id_def p1_doc_def)

theorem malformed_id_witness:
  "\<not> shaped ''not-an-id''
   \<and> handle_getById True ''t0'' [p1_doc] ''not-an-id''
       = (failure_response ''t0'' invalid_id, [p1_doc], [])
   \<and> status (failure_response ''t0'' invalid_id) = 400
   \<and> shaped ''507f1f77bcf86cd799439011''
   \<and> handle_getById True ''t0'' [p1_doc] ''507f1f77bcf86cd799439011''
       = (success_response 200 ''Project retrieved successfully'' (JObj p1_doc), [p1_doc],
          [CallGetById ''507f1f77bcf86cd799439011''])"
proof -
  have n: "\<not> shaped ''not-an-id''" by (simp add: shaped_def)
  have y: "shaped ''507f1f77bcf86cd799439011''" by (simp add: shaped_def)
  note m = malformed_id_short_circuits [where ident = "''not-an-id''" and connected = True
      and ts = "''t0''" and st = "[p1_doc]"]
  from m n have "handle_getById True ''t0'' [p1_doc] ''not-an-id''
       = (failure_response ''t0'' invalid_id, [p1_doc], [])"
    and "status (failure_response ''t0'' invalid_id) = 400" by blast+
  with n y lookup_p1 show ?thesis by blast
qed

subsection \<open>The schema on creation\<close>

lemma validate_path_keys:
  "\<forall>kp fs kv. validate_path now input kp = Inr fs \<longrightarrow> kv \<in> set fs \<longrightarrow> fst kv = fst kp"
  by (auto simp: validate_path_def split: option.splits schema_default.splits sum.splits)

lemma rights_keys:
  assumes "\<forall>kp fs kv. f kp = Inr fs \<longrightarrow> kv \<in> set fs \<longrightarrow> fst kv = fst kp"
    and "kv \<in> set (concat (rights (map f schema)))"
  shows "fst kv \<in> fst ` set schema"
  using assms(2)
proof (induction schema)
  case Nil
  then show ?case by simp
next
  case (Cons a schema)
  show ?case
  proof (cases "f a")
    case (Inl e)
    with Cons show ?thesis by simp
  next
    case (Inr fs)
    with Cons.prems have "kv \<in> set fs \<or> kv \<in> set (concat (rights (map f schema)))"
      by simp
    then show ?thesis
    proof
      assume "kv \<in> set fs"
      with assms(1) Inr have "fst kv = fst a" by blast
      then show ?thesis by simp
    next
      assume "kv \<in> set (concat (rights (map f schema)))"
      from Cons.IH [OF this] show ?thesis by simp
    qed
  qed
qed

lemma lefts_all_Inr: "\<forall>x\<in>set xs. \<exists>fs. f x = Inr fs \<Longrightarrow> lefts (map f xs) = []"
  by (induction xs) auto

lemma map_of_none_keys: "k \<notin> fst ` set xs \<Longrightarrow> map_of xs k = None"
  by (simp add: map_of_eq_None_iff)

lemma map_of_concat_rights:
  assumes keys: "\<forall>kp fs kv. f kp = Inr fs \<longrightarrow> kv \<in> set fs \<longrightarrow> fst kv = fst kp"
    and "distinct (map fst schema)" and "(k, p) \<in> set schema" and "f (k, p) = Inr fs"
  shows "map_of (concat (rights (map f schema))) k = map_of fs k"
  using assms(2,3)
proof (induction schema)
  case Nil
  then show ?case by simp
next
  case (Cons a schema)
  have rest: "map_of (concat (rights (map f schema))) k = None" if "k \<notin> fst ` set schema"
  proof (rule map_of_none_keys, rule notI)
    assume "k \<in> fst ` set (concat (rights (map f schema)))"
    then obtain kv where "kv \<in> set (concat (rights (map f schema)))" and "fst kv = k"
      by auto
    with rights_keys [OF keys] that show False by blast
  qed
  show ?case
  proof (cases "a = (k, p)")
    case True
    with Cons.prems have "k \<notin> fst ` set schema" by simp
    from rest [OF this] True assms(4) show ?thesis
      by (simp add: map_add_def split: option.split)
  next
    case False
    with Cons.prems have mem: "(k, p) \<in> set schema" and ne: "fst a \<noteq> k"
      by (auto simp: image_iff)
    from Cons.prems have "distinct (map fst schema)" by simp
    note ih = Cons.IH [OF this mem]
    show ?thesis
    proof (cases "f a")
      case (Inl e)
      with ih show ?thesis by simp
    next
      case (Inr fa)
      have "k \<notin> fst ` set fa"
      proof
        assume "k \<in> fst ` set fa"
        then obtain kv where "kv \<in> set fa" and "fst kv = k" by auto
        with keys Inr have "fst kv = fst a" by blast
        with ne \<open>fst kv = k\<close> show False by simp
      qed
      then have "map_of fa k = None" by (rule map_of_none_keys)
      with ih Inr show ?thesis by (simp add: map_add_def)
    qed
  qed
qed

lemma schema_distinct: "distinct (map fst projectSchema)"
  by (simp add: projectSchema_def)

lemma required_path:
  assumes "required_text input k" and "p_type p = SString" and "p_trim p"
    and "p_enum p = None"
  shows "\<exists>s. map_of input k = Some (JStr s) \<and> js_trim s \<noteq> []
            \<and> validate_path now input (k, p) = Inr [(k, JStr (js_trim s))]"
proof -
  from assms(1) obtain s where s: "map_of input k = Some (JStr s)" "js_trim s \<noteq> []"
    by (auto simp: required_text_def split: option.splits json.splits)
  with assms(2-) show ?thesis
    by (simp add: validate_path_def check_value_def cast_value_def check_enum_def
        split: option.split)
qed

lemma optional_path:
  assumes "absent_or P (map_of input k)"
    and "\<And>v. P v \<Longrightarrow> \<exists>v'. check_value k p v = Inr v'"
    and "p_required p = None"
  shows "\<exists>fs. validate_path now input (k, p) = Inr fs"
proof (cases "map_of input k")
  case None
  with assms(3) show ?thesis
    by (simp add: validate_path_def split: schema_default.split)
next
  case (Some v)
  with assms(1) have "P v" by (simp add: absent_or_def)
  from assms(2) [OF this] obtain v' where "check_value k p v = Inr v'" ..
  with Some show ?thesis by (simp add: validate_path_def)
qed

lemma required_path_ok:
  assumes "required_text input k" and "p_type p = SString" and "p_trim p"
    and "p_enum p = None"
  shows "\<exists>fs. validate_path now input (k, p) = Inr fs"
  using required_path [OF assms, of now] by blast

lemma text_list_ok:
  "is_text_list v \<Longrightarrow> p_type p = SStringArray \<Longrightarrow> p_required p = None \<Longrightarrow> p_enum p = None
   \<Longrightarrow> \<exists>v'. check_value k p v = Inr v'"
  by (cases v) (simp_all add: check_value_def cast_value_def check_enum_def)

lemma date_ok:
  "is_date v \<Longrightarrow> p_type p = SDate \<Longrightarrow> p_required p = None \<Longrightarrow> p_enum p = None
   \<Longrightarrow> \<exists>v'. check_value k p v = Inr v'"
  by (cases v) (simp_all add: check_value_def cast_value_def check_enum_def)

lemma text_ok:
  "is_text v \<Longrightarrow> p_type p = SString \<Longrightarrow> p_required p = None \<Longrightarrow> p_enum p = None
   \<Longrightarrow> \<exists>v'. check_value k p v = Inr v'"
  by (cases v) (simp_all add: check_value_def cast_value_def check_enum_def)

lemma status_ok:
  "is_status v \<Longrightarrow> p_type p = SString \<Longrightarrow> p_required p = None \<Longrightarrow> \<not> p_trim p
   \<Longrightarrow> p_enum p = Some [''planning'', ''in-progress'', ''completed'', ''on-hold'']
   \<Longrightarrow> \<exists>v'. check_value k p v = Inr v'"
  by (cases v) (auto simp: check_value_def cast_value_def check_enum_def)

lemma all_paths_ok:
  assumes "required_text input ''name''" and "required_text input ''description''"
    and "optional_fields_valid input"
  shows "\<forall>kp\<in>set projectSchema. \<exists>fs. validate_path now input kp = Inr fs"
proof -
  from assms(3) have o:
    "absent_or is_text_list (map_of input ''technologies'')"
    "absent_or is_status (map_of input ''status'')"
    "absent_or is_date (map_of input ''startDate'')"
    "absent_or is_date (map_of input ''endDate'')"
    "absent_or is_text (map_of input ''repository'')"
    "absent_or is_text (map_of input ''liveUrl'')"
    by (simp_all add: optional_fields_valid_def)
  show ?thesis
    unfolding projectSchema_def
    apply (simp only: list.set ball_simps simp_thms)
    apply (intro conjI)
    subgoal by (rule required_path_ok [OF assms(1)]) simp_all
    subgoal by (rule required_path_ok [OF assms(2)]) simp_all
    subgoal by (rule optional_path [OF o(1)]) (simp_all add: text_list_ok)
    subgoal by (rule optional_path [OF o(2)]) (simp_all add: status_ok)
    subgoal by (rule optional_path [OF o(3)]) (simp_all add: date_ok)
    subgoal by (rule optional_path [OF o(4)]) (simp_all add: date_ok)
    subgoal by (rule optional_path [OF o(5)]) (simp_all add: text_ok)
    subgoal by (rule optional_path [OF o(6)]) (simp_all add: text_ok)
    done
qed


lemma schema_lookup:
  assumes "map_of projectSchema k = Some p" and "validate_path now input (k, p) = Inr fs"
  shows "map_of (concat (rights (map (validate_path now input) projectSchema))) k = map_of fs k"
  using map_of_concat_rights [OF validate_path_keys schema_distinct
      map_of_SomeD [OF assms(1)] assms(2)] .

lemma schema_no_lookup:
  assumes "k \<notin> fst ` set projectSchema"
  shows "map_of (concat (rights (map (validate_path now input) projectSchema))) k = None"
proof (rule map_of_none_keys, rule notI)
  assume "k \<in> fst ` set (concat (rights (map (validate_path now input) projectSchema)))"
  then obtain kv where "kv \<in> set (concat (rights (map (validate_path now input) projectSchema)))"
    and "fst kv = k" by auto
  with rights_keys [OF validate_path_keys] assms show False by blast
qed

lemma system_not_in_schema:
  "''_id'' \<notin> fst ` set projectSchema" "''createdAt'' \<notin> fst ` set projectSchema"
  "''updatedAt'' \<notin> fst ` set projectSchema"
  by (simp_all add: projectSchema_def)

lemma map_of_filter_keys:
  "map_of (filter (\<lambda>kv. fst kv \<in> A) xs) k = (if k \<in> A then map_of xs k else None)"
  by (induction xs) auto

lemma allowed_schema: "set allowedFields = fst ` set projectSchema"
  by (simp add: allowedFields_def projectSchema_def)

lemma validate_sanitized:
  "map (validate_path now (sanitize (JObj input))) projectSchema
     = map (validate_path now input) projectSchema"
  by (rule map_cong [OF refl])
     (auto simp: validate_path_def sanitize_def map_of_filter_keys allowed_schema)

lemma create_sanitized:
  "create c newId now (sanitize (JObj input)) st = create c newId now input st"
  by (simp add: create_def validate_sanitized)

lemma status_path:
  "map_of projectSchema ''status'' =
     Some \<lparr> p_type = SString, p_required = None, p_trim = False,
            p_enum = Some [''planning'', ''in-progress'', ''completed'', ''on-hold''],
            p_default = DefaultValue (JStr ''planning'') \<rparr>"
  by (simp add: projectSchema_def)

lemma technologies_path:
  "map_of projectSchema ''technologies'' =
     Some \<lparr> p_type = SStringArray, p_required = None, p_trim = False,
            p_enum = None, p_default = DefaultValue (JArr []) \<rparr>"
  by (simp add: projectSchema_def)

text \<open>
  C6, as the schema has it. For every creation payload whose \<open>name\<close> and
  \<open>description\<close> are non-empty after trimming and whose other supplied fields are
  valid, with an identifier not yet in the collection, \<open>create\<close> succeeds: the
  returned record is stored, carries the assigned identifier, has \<open>createdAt\<close> and
  \<open>updatedAt\<close> both equal to the creation time, has status \<open>planning\<close> when none
  was supplied and an empty \<open>technologies\<close> when none was supplied; \<open>POST\<close> answers
  201 with that record.
\<close>

theorem create_succeeds:
  assumes "required_text input ''name''" and "required_text input ''description''"
    and "optional_fields_valid input" and "find_doc newId st = None"
  shows "\<exists>d. create True newId now input st = Inr (d, st @ [d])
          \<and> map_of d ''_id'' = Some (JStr newId)
          \<and> map_of d ''createdAt'' = Some (JDate now)
          \<and> map_of d ''updatedAt'' = Some (JDate now)
          \<and> map_of d ''createdAt'' = map_of d ''updatedAt''
          \<and> (map_of input ''status'' = None \<longrightarrow>
                map_of d ''status'' = Some (JStr ''planning''))
          \<and> (map_of input ''technologies'' = None \<longrightarrow>
                map_of d ''technologies'' = Some (JArr []))
          \<and> handle_create True newId now ts st (JObj input)
               = (success_response 201 ''Project created successfully'' (JObj d),
                  st @ [d], [CallCreate (sanitize (JObj input))])"
proof -
  let ?mid = "concat (rights (map (validate_path now input) projectSchema))"
  let ?d = "[(''_id'', JStr newId)] @ ?mid
            @ [(''createdAt'', JDate now), (''updatedAt'', JDate now)]"
  have "lefts (map (validate_path now input) projectSchema) = []"
    by (rule lefts_all_Inr) (rule all_paths_ok [OF assms(1-3)])
  with assms(4) have c: "create True newId now input st = Inr (?d, st @ [?d])"
    by (simp add: create_def Let_def schema_timestamps_def)
  have i: "map_of ?d ''_id'' = Some (JStr newId)" by simp
  have t: "map_of ?d ''createdAt'' = Some (JDate now)"
    "map_of ?d ''updatedAt'' = Some (JDate now)"
    by (simp_all add: map_add_def schema_no_lookup system_not_in_schema)
  have s: "map_of ?d ''status'' = Some (JStr ''planning'')" if "map_of input ''status'' = None"
  proof -
    have "map_of ?mid ''status'' = map_of [(''status'', JStr ''planning'')] ''status''"
      by (rule schema_lookup [OF status_path]) (simp add: validate_path_def that)
    then show ?thesis by (simp add: map_add_def)
  qed
  have g: "map_of ?d ''technologies'' = Some (JArr [])"
    if "map_of input ''technologies'' = None"
  proof -
    have "map_of ?mid ''technologies'' = map_of [(''technologies'', JArr [])] ''technologies''"
      by (rule schema_lookup [OF technologies_path]) (simp add: validate_path_def that)
    then show ?thesis by (simp add: map_add_def)
  qed
  have h: "handle_create True newId now ts st (JObj input)
      = (success_response 201 ''Project created successfully'' (JObj ?d),
         st @ [?d], [CallCreate (sanitize (JObj input))])"
    by (simp add: handle_create_def Let_def create_sanitized c)
  from c i t s g h show ?thesis by (intro exI [of _ ?d]) simp
qed

lemma trim_P1: "js_trim ''P1'' = ''P1''" "js_trim ''D1'' = ''D1''"
  by (simp_all add: js_trim_def is_space_def)

lemma create_p1: "create True p1_id 1000 p1_input [] = Inr (p1_doc, [p1_doc])"
  by (simp add: create_def Let_def projectSchema_def validate_path_def check_value_def
      cast_value_def check_enum_def trim_P1 p1_input_def p1_doc_def p1_id_def find_doc_def
      schema_timestamps_def)

lemma create_bogus:
  "create True p1_id 1000 bogus_input []
     = Inl (ValidationFailure [''bogus is not a valid enum value for path status''])"
  by (simp add: create_def Let_def projectSchema_def validate_path_def check_value_def
      cast_value_def check_enum_def trim_P1 bogus_input_def p1_id_def)

lemma required_p1: "required_text p1_input ''name''" "required_text p1_input ''description''"
  "required_text bogus_input ''name''" "required_text bogus_input ''description''"
  by (simp_all add: required_text_def p1_input_def bogus_input_def trim_P1)

lemma optional_p1: "optional_fields_valid p1_input"
  by (simp add: optional_fields_valid_def absent_or_def p1_input_def)

theorem create_succeeds_witness:
  "required_text p1_input ''name'' \<and> required_text p1_input ''description''
   \<and> optional_fields_valid p1_input \<and> find_doc p1_id [] = None
   \<and> create True p1_id 1000 p1_input [] = Inr (p1_doc, [p1_doc])
   \<and> map_of p1_doc ''_id'' = Some (JStr p1_id)
   \<and> map_of p1_doc ''createdAt'' = Some (JDate 1000)
   \<and> map_of p1_doc ''updatedAt'' = Some (JDate 1000)
   \<and> map_of p1_doc ''status'' = Some (JStr ''planning'')
   \<and> map_of p1_doc ''technologies'' = Some (JArr [])"
proof -
  have f: "find_doc p1_id [] = None" by (simp add: find_doc_def)
  have s: "map_of p1_input ''status'' = None" "map_of p1_input ''technologies'' = None"
    by (simp_all add: p1_input_def)
  from create_succeeds [OF required_p1(1,2) optional_p1 f, of 1000 "''t0''"] create_p1 s
  have "map_of p1_doc ''_id'' = Some (JStr p1_id)
      \<and> map_of p1_doc ''createdAt'' = Some (JDate 1000)
      \<and> map_of p1_doc ''updatedAt'' = Some (JDate 1000)
      \<and> map_of p1_doc ''status'' = Some (JStr ''planning'')
      \<and> map_of p1_doc ''technologies'' = Some (JArr [])"
    by auto
  with required_p1(1,2) optional_p1 f create_p1 show ?thesis by blast
qed

text \<open>
  C6 as stated asks only for \<open>name\<close> and \<open>description\<close>. A payload that has
  both and a status outside the enumeration is rejected.
\<close>

theorem create_invalid_status_counterexample:
  "required_text bogus_input ''name'' \<and> required_text bogus_input ''description''
   \<and> create True p1_id 1000 bogus_input []
       = Inl (ValidationFailure [''bogus is not a valid enum value for path status''])"
  using required_p1(3,4) create_bogus by blast

subsection \<open>Whitelisting\<close>

lemma validate_field_keys:
  "validate_field x = Inr fs \<Longrightarrow> kv \<in> set fs \<Longrightarrow> fst kv \<in> set allowedFields"
  by (auto simp: validate_field_def allowed_schema split: option.splits sum.splits
      dest!: map_of_SomeD intro: image_eqI [where x = "(fst x, _)"])

lemma rights_field_keys:
  "kv \<in> set (concat (rights (map validate_field input))) \<Longrightarrow> fst kv \<in> set allowedFields"
proof (induction input)
  case Nil
  then show ?case by simp
next
  case (Cons a input)
  show ?case
  proof (cases "validate_field a")
    case (Inl e)
    with Cons show ?thesis by simp
  next
    case (Inr fs)
    with Cons.prems have "kv \<in> set fs \<or> kv \<in> set (concat (rights (map validate_field input)))"
      by simp
    then show ?thesis
    proof
      assume "kv \<in> set fs"
      from validate_field_keys [OF Inr this] show ?thesis .
    next
      assume "kv \<in> set (concat (rights (map validate_field input)))"
      from Cons.IH [OF this] show ?thesis .
    qed
  qed
qed

lemma assign_keys: "fst ` set (assign k v d) = insert k (fst ` set d)"
proof (induction d)
  case Nil
  show ?case by simp
next
  case (Cons a d)
  obtain k' v' where a: "a = (k', v')" by (cases a)
  show ?case
  proof (cases "k = k'")
    case True
    then show ?thesis by (simp add: a)
  next
    case False
    then show ?thesis using Cons by (simp add: a insert_commute)
  qed
qed

lemma map_of_assign: "map_of (assign k v d) = (map_of d)(k \<mapsto> v)"
  by (induction d) auto

lemma apply_fields_keys: "fst ` set (apply_fields fs d) = fst ` set fs \<union> fst ` set d"
  unfolding apply_fields_def
  by (induction fs arbitrary: d) (auto simp: assign_keys)

lemma map_of_apply_fields:
  "k \<notin> fst ` set fs \<Longrightarrow> map_of (apply_fields fs d) k = map_of d k"
  unfolding apply_fields_def
  by (induction fs arbitrary: d) (auto simp: map_of_assign)

lemma clean_iff: "clean d \<longleftrightarrow> fst ` set d \<subseteq> set allowedFields \<union> set systemFields"
  by (auto simp: clean_def list_all_iff)

lemma sanitize_keys: "kv \<in> set (sanitize b) \<Longrightarrow> fst kv \<in> set allowedFields"
  by (cases b) (auto simp: sanitize_def)

lemma create_clean:
  assumes "create connected newId now input st = Inr (d, st')"
  shows "clean d \<and> st' = st @ [d]"
proof -
  let ?rs = "map (validate_path now input) projectSchema"
  from assms have d: "d = [(''_id'', JStr newId)] @ concat (rights ?rs)
      @ [(''createdAt'', JDate now), (''updatedAt'', JDate now)]" and s: "st' = st @ [d]"
    by (auto simp: create_def Let_def schema_timestamps_def split: if_splits)
  have "fst kv \<in> set allowedFields" if "kv \<in> set (concat (rights ?rs))" for kv
    using rights_keys [OF validate_path_keys that] by (simp add: allowed_schema)
  then have "fst ` set d \<subseteq> set allowedFields \<union> set systemFields"
    unfolding d by (auto simp: systemFields_def)
  with s show ?thesis by (simp add: clean_iff)
qed

lemma replace_doc_all: "list_all P st \<Longrightarrow> P d' \<Longrightarrow> list_all P (replace_doc ident d' st)"
  by (induction st) auto

lemma find_doc_mem: "find_doc ident st = Some d \<Longrightarrow> d \<in> set st \<and> has_id ident d"
  by (auto simp: find_doc_def find_Some_iff)

lemma update_clean:
  assumes "update connected ident now input st = Inr (d', st')" and "list_all clean st"
  shows "clean d' \<and> list_all clean st'"
proof -
  let ?fs = "concat (rights (map validate_field input))"
  from assms(1) obtain d where f: "find_doc ident st = Some d"
    and d': "d' = assign ''updatedAt'' (JDate now) (apply_fields ?fs d)"
    and s: "st' = replace_doc ident d' st"
    by (auto simp: update_def Let_def schema_timestamps_def split: if_splits option.splits)
  from f assms(2) have "clean d" using find_doc_mem by (fastforce simp: list_all_iff)
  then have c: "fst ` set d \<subseteq> set allowedFields \<union> set systemFields"
    by (simp add: clean_iff)
  have k: "fst ` set ?fs \<subseteq> set allowedFields"
    by (rule image_subsetI) (rule rights_field_keys)
  have u: "''updatedAt'' \<in> set systemFields" by (simp add: systemFields_def)
  have "fst ` set d' = insert ''updatedAt'' (fst ` set ?fs \<union> fst ` set d)"
    unfolding d' by (simp only: assign_keys apply_fields_keys)
  moreover have "insert ''updatedAt'' (fst ` set ?fs \<union> fst ` set d)
      \<subseteq> set allowedFields \<union> set systemFields"
  proof (intro insert_subsetI Un_least)
    show "''updatedAt'' \<in> set allowedFields \<union> set systemFields" using u by simp
    show "fst ` set ?fs \<subseteq> set allowedFields \<union> set systemFields"
      using k by (rule subset_trans) simp
    show "fst ` set d \<subseteq> set allowedFields \<union> set systemFields" by (rule c)
  qed
  ultimately have "fst ` set d' \<subseteq> set allowedFields \<union> set systemFields"
    by (simp only:)
  then have "clean d'" by (simp add: clean_iff)
  with assms(2) s show ?thesis by (simp add: replace_doc_all)
qed

text \<open>
  C7. Every field that \<open>sanitize\<close> lets through is whitelisted, and no
  system-managed field is. The handlers of
  \<open>POST\<close> and \<open>PUT\<close> invoke the repository with the sanitized fields only, and when
  the documents of the collection are clean before the request they are clean after it:
  no stored record has a field outside the data model.
\<close>

theorem whitelist:
  "list_all (\<lambda>kv. fst kv \<in> set allowedFields) (sanitize b)
   \<and> set allowedFields \<inter> set systemFields = {}
   \<and> (handle_create connected newId now ts st b = (r, st', calls) \<longrightarrow>
        calls = [CallCreate (sanitize b)] \<and> (list_all clean st \<longrightarrow> list_all clean st'))
   \<and> (handle_update connected now ts st ident b = (r, st', calls) \<longrightarrow>
        (calls = [] \<or> calls = [CallUpdate ident (sanitize b)])
        \<and> (list_all clean st \<longrightarrow> list_all clean st'))"
proof -
  have 1: "list_all (\<lambda>kv. fst kv \<in> set allowedFields) (sanitize b)"
    by (simp add: list_all_iff sanitize_keys)
  have 0: "set allowedFields \<inter> set systemFields = {}"
    by (simp add: allowedFields_def systemFields_def)
  have 2: "calls = [CallCreate (sanitize b)] \<and> (list_all clean st \<longrightarrow> list_all clean st')"
    if h: "handle_create connected newId now ts st b = (r, st', calls)"
  proof (cases "create connected newId now (sanitize b) st")
    case (Inl f)
    with h show ?thesis by (simp add: handle_create_def Let_def)
  next
    case (Inr p)
    obtain d s where p: "p = (d, s)" by (cases p)
    with h Inr have "calls = [CallCreate (sanitize b)]" "st' = s"
      by (simp_all add: handle_create_def Let_def)
    with create_clean [OF Inr [unfolded p]] show ?thesis by simp
  qed
  have 3: "(calls = [] \<or> calls = [CallUpdate ident (sanitize b)])
        \<and> (list_all clean st \<longrightarrow> list_all clean st')"
    if h: "handle_update connected now ts st ident b = (r, st', calls)"
  proof (cases "isValidObjectId ident")
    case False
    with h show ?thesis by (simp add: handle_update_def)
  next
    case True
    show ?thesis
    proof (cases "update connected ident now (sanitize b) st")
      case (Inl f)
      with h True show ?thesis by (simp add: handle_update_def Let_def)
    next
      case (Inr p)
      obtain d s where p: "p = (d, s)" by (cases p)
      with h Inr True have "calls = [CallUpdate ident (sanitize b)]" "st' = s"
        by (simp_all add: handle_update_def Let_def)
      with update_clean [OF Inr [unfolded p]] show ?thesis by simp
    qed
  qed
  from 0 1 2 3 show ?thesis by blast
qed

lemma sanitize_hacked: "sanitize hacked_body = p1_input"
  by (simp add: sanitize_def hacked_body_def allowedFields_def p1_input_def)

lemma handle_hacked:
  "handle_create True p1_id 1000 ts [] hacked_body
     = (success_response 201 ''Project created successfully'' (JObj p1_doc),
        [p1_doc], [CallCreate p1_input])"
  by (simp add: handle_create_def sanitize_hacked create_p1)

theorem whitelist_witness:
  "sanitize hacked_body = p1_input
   \<and> handle_create True p1_id 1000 ''t0'' [] hacked_body
       = (success_response 201 ''Project created successfully'' (JObj p1_doc),
          [p1_doc], [CallCreate p1_input])
   \<and> list_all clean [] \<and> list_all clean [p1_doc]
   \<and> map_of p1_doc ''hacked'' = None"
proof -
  note w = whitelist [where b = hacked_body and connected = True and newId = p1_id
      and now = 1000 and ts = "''t0''" and st = "[]"
      and r = "success_response 201 ''Project created successfully'' (JObj p1_doc)"
      and st' = "[p1_doc]" and calls = "[CallCreate p1_input]"]
  have e: "list_all clean []" by simp
  from w handle_hacked e have "list_all clean [p1_doc]" by blast
  moreover have "map_of p1_doc ''hacked'' = None" by (simp add: p1_doc_def)
  ultimately show ?thesis using sanitize_hacked handle_hacked e by blast
qed

subsection \<open>Updates and timestamps\<close>

lemma stamps_okD:
  "stamps_ok t d \<Longrightarrow>
   \<exists>c u. date_of (map_of d ''createdAt'') = Some c \<and> date_of (map_of d ''updatedAt'') = Some u
         \<and> c \<le> u \<and> u \<le> t"
  by (simp add: stamps_ok_def split: option.splits)

lemma stamps_okI:
  "date_of (map_of d ''createdAt'') = Some c \<Longrightarrow> date_of (map_of d ''updatedAt'') = Some u
   \<Longrightarrow> c \<le> u \<Longrightarrow> u \<le> t \<Longrightarrow> stamps_ok t d"
  by (simp add: stamps_ok_def)

lemma stamps_mono: "stamps_ok t d \<Longrightarrow> t \<le> t' \<Longrightarrow> stamps_ok t' d"
  by (auto dest!: stamps_okD intro: stamps_okI)

lemma stamps_all_mono: "list_all (stamps_ok t) st \<Longrightarrow> t \<le> t' \<Longrightarrow> list_all (stamps_ok t') st"
  by (auto simp: list_all_iff intro: stamps_mono)

lemma has_id_same: "has_id i d \<Longrightarrow> has_id j d \<Longrightarrow> i = j"
  by (simp add: has_id_def)

lemma find_doc_none: "find_doc i st = None \<longleftrightarrow> (\<forall>d\<in>set st. \<not> has_id i d)"
  by (auto simp: find_doc_def find_None_iff)

text \<open>What a successful \<open>create\<close> leaves behind.\<close>

lemma create_shape:
  assumes "create True newId now input st = Inr (d, st')"
  shows "st' = st @ [d] \<and> find_doc newId st = None \<and> has_id newId d
         \<and> map_of d ''createdAt'' = Some (JDate now)
         \<and> map_of d ''updatedAt'' = Some (JDate now)"
proof -
  let ?mid = "concat (rights (map (validate_path now input) projectSchema))"
  from assms have d: "d = [(''_id'', JStr newId)] @ ?mid
      @ [(''createdAt'', JDate now), (''updatedAt'', JDate now)]"
    and s: "st' = st @ [d]" and f: "find_doc newId st = None"
    by (auto simp: create_def Let_def schema_timestamps_def split: if_splits)
  have "has_id newId d" unfolding d by (simp add: has_id_def)
  moreover have "map_of d ''createdAt'' = Some (JDate now)"
    "map_of d ''updatedAt'' = Some (JDate now)"
    unfolding d by (simp_all add: map_add_def schema_no_lookup system_not_in_schema)
  ultimately show ?thesis using s f by simp
qed

lemma create_inv:
  assumes "create True newId now input st = Inr (d, st')" and "store_ok t st" and "t \<le> now"
  shows "store_ok now st'"
proof -
  from create_shape [OF assms(1)] have s: "st' = st @ [d]"
    and f: "find_doc newId st = None" and h: "has_id newId d"
    and c: "map_of d ''createdAt'' = Some (JDate now)"
    and u: "map_of d ''updatedAt'' = Some (JDate now)" by simp_all
  from f have "\<forall>x\<in>set st. map_of x ''_id'' \<noteq> Some (JStr newId)"
    by (simp add: find_doc_none has_id_def)
  with h assms(2) have "unique_ids st'"
    unfolding s by (auto simp: unique_ids_def store_ok_def has_id_def)
  from c u have "stamps_ok now d" by (simp add: stamps_ok_def)
  moreover from assms(2,3) have "list_all (stamps_ok now) st"
    by (auto simp: store_ok_def intro: stamps_all_mono)
  ultimately have "list_all (stamps_ok now) st'"
    unfolding s by simp
  with \<open>unique_ids st'\<close> show ?thesis by (simp add: store_ok_def)
qed

lemma find_doc_append:
  "find_doc i st = Some d \<Longrightarrow> find_doc i (st @ [x]) = Some d"
  by (induction st) (auto simp: find_doc_def)

text \<open>What a successful \<open>update\<close> leaves behind.\<close>

lemma update_shape:
  assumes "update True ident now input st = Inr (d', st')"
  shows "\<exists>d. find_doc ident st = Some d \<and> st' = replace_doc ident d' st
           \<and> map_of d' ''updatedAt'' = Some (JDate now)
           \<and> (\<forall>k. k \<notin> set allowedFields \<and> k \<noteq> ''updatedAt'' \<longrightarrow> map_of d' k = map_of d k)"
proof -
  let ?fs = "concat (rights (map validate_field input))"
  from assms obtain d where f: "find_doc ident st = Some d"
    and d': "d' = assign ''updatedAt'' (JDate now) (apply_fields ?fs d)"
    and s: "st' = replace_doc ident d' st"
    by (auto simp: update_def Let_def schema_timestamps_def split: if_splits option.splits)
  have k: "fst ` set ?fs \<subseteq> set allowedFields"
    by (rule image_subsetI) (rule rights_field_keys)
  have "map_of d' k = map_of d k" if "k \<notin> set allowedFields" "k \<noteq> ''updatedAt''" for k
  proof -
    from that(1) k have "k \<notin> fst ` set ?fs" by blast
    from map_of_apply_fields [OF this] that(2) show ?thesis
      unfolding d' by (simp add: map_of_assign)
  qed
  moreover have "map_of d' ''updatedAt'' = Some (JDate now)"
    unfolding d' by (simp add: map_of_assign)
  ultimately show ?thesis using f s by blast
qed

lemma system_not_allowed:
  "''_id'' \<notin> set allowedFields" "''createdAt'' \<notin> set allowedFields"
  by (simp_all add: allowedFields_def)

lemma replace_doc_ids:
  "has_id ident d' \<Longrightarrow>
   map (\<lambda>d. map_of d ''_id'') (replace_doc ident d' st) = map (\<lambda>d. map_of d ''_id'') st"
  by (induction st) (auto simp: has_id_def)

lemma find_replace:
  assumes "has_id ident d'"
  shows "find_doc i (replace_doc ident d' st) =
           (if i = ident then (case find_doc ident st of None \<Rightarrow> None | Some d \<Rightarrow> Some d')
            else find_doc i st)"
  using assms
  by (induction st) (auto simp: find_doc_def dest: has_id_same)

lemma update_inv:
  assumes "update True ident now input st = Inr (d', st')" and "store_ok t st" and "t \<le> now"
  shows "store_ok now st'"
proof -
  from update_shape [OF assms(1)] obtain d where f: "find_doc ident st = Some d"
    and s: "st' = replace_doc ident d' st"
    and u: "map_of d' ''updatedAt'' = Some (JDate now)"
    and k: "\<forall>k. k \<notin> set allowedFields \<and> k \<noteq> ''updatedAt'' \<longrightarrow> map_of d' k = map_of d k"
    by blast
  from f have m: "d \<in> set st" and h: "has_id ident d" using find_doc_mem by blast+
  from k h have h': "has_id ident d'" by (simp add: has_id_def system_not_allowed)
  from k have c: "map_of d' ''createdAt'' = map_of d ''createdAt''"
    by (simp add: system_not_allowed)
  from m assms(2) have "stamps_ok t d" by (simp add: store_ok_def list_all_iff)
  then obtain c0 u0 where "date_of (map_of d ''createdAt'') = Some c0" and "c0 \<le> u0"
    and "u0 \<le> t" using stamps_okD by blast
  with c u assms(3) have "stamps_ok now d'"
    by (intro stamps_okI [where c = c0 and u = now]) simp_all
  moreover from assms(2,3) have "list_all (stamps_ok now) st"
    by (auto simp: store_ok_def intro: stamps_all_mono)
  ultimately have "list_all (stamps_ok now) st'"
    unfolding s by (simp add: replace_doc_all)
  moreover from assms(2) have "unique_ids st'"
    unfolding s by (simp add: unique_ids_def store_ok_def replace_doc_ids [OF h'])
  ultimately show ?thesis by (simp add: store_ok_def)
qed

text \<open>What a successful \<open>delete\<close> leaves behind.\<close>

lemma remove_doc_subset: "set (remove_doc i st) \<subseteq> set st"
  by (induction st) auto

lemma remove_doc_distinct:
  "distinct (map f st) \<Longrightarrow> distinct (map f (remove_doc i st))"
proof (induction st)
  case Nil
  then show ?case by simp
next
  case (Cons a st)
  then show ?case using remove_doc_subset [of i st] by auto
qed

lemma delete_shape:
  "delete True ident st = Inr (j, st') \<Longrightarrow> st' = remove_doc ident st"
  by (auto simp: delete_def split: option.splits)

lemma delete_inv:
  assumes "delete True ident st = Inr (j, st')" and "store_ok t st" and "t \<le> now"
  shows "store_ok now st'"
proof -
  from delete_shape [OF assms(1)] have s: "st' = remove_doc ident st" .
  from assms(2) have "unique_ids st'"
    unfolding s by (simp add: unique_ids_def store_ok_def remove_doc_distinct)
  moreover from assms(2,3) have "list_all (stamps_ok now) st'"
    unfolding s using remove_doc_subset [of ident st]
    by (auto simp: store_ok_def list_all_iff intro: stamps_mono)
  ultimately show ?thesis by (simp add: store_ok_def)
qed

lemma find_remove:
  assumes "unique_ids st"
  shows "find_doc i (remove_doc ident st) = (if i = ident then None else find_doc i st)"
  using assms
proof (induction st)
  case Nil
  then show ?case by (simp add: find_doc_def)
next
  case (Cons a st)
  then have u: "unique_ids st" and n: "map_of a ''_id'' \<notin> (\<lambda>d. map_of d ''_id'') ` set st"
    by (simp_all add: unique_ids_def)
  show ?case
  proof (cases "has_id ident a")
    case True
    then have "\<forall>d\<in>set st. \<not> has_id ident d" using n by (auto simp: has_id_def image_iff)
    then have "find_doc ident st = None" by (simp add: find_doc_none)
    with True show ?thesis by (auto simp: find_doc_def dest: has_id_same)
  next
    case False
    with Cons.IH [OF u] show ?thesis by (auto simp: find_doc_def)
  qed
qed


text \<open>The effect of a request is that of at most one repository operation.\<close>

lemma serve_cases:
  assumes "serve (newId, now, ts, req) st = st'"
  shows "st' = st
         \<or> (\<exists>d. create True newId now (sanitize (body req)) st = Inr (d, st'))
         \<or> (\<exists>ident d. update True ident now (sanitize (body req)) st = Inr (d, st'))
         \<or> (\<exists>ident j. delete True ident st = Inr (j, st'))"
  using assms
  by (auto simp: serve_def projectRoutes_def handle_getAll_def handle_getById_def
      handle_create_def handle_update_def handle_delete_def Let_def
      split: list.splits if_splits sum.splits prod.splits)

lemma serve_inv:
  assumes "store_ok t st" and "t \<le> now"
  shows "store_ok now (serve (newId, now, ts, req) st)"
proof -
  from assms have same: "store_ok now st"
    by (auto simp: store_ok_def intro: stamps_all_mono)
  from serve_cases [OF refl, of newId now ts req st] show ?thesis
    using same create_inv [OF _ assms] update_inv [OF _ assms] delete_inv [OF _ assms]
    by (elim disjE exE) simp_all
qed

lemma serve_all_inv:
  "store_ok t st \<Longrightarrow> clock_ok t as \<Longrightarrow> store_ok (last_time t as) (serve_all as st)"
proof (induction as arbitrary: t st)
  case Nil
  then show ?case by simp
next
  case (Cons a as)
  obtain newId now ts req where a: "a = (newId, now, ts, req)" by (cases a)
  from Cons.prems have "t \<le> now" and c: "clock_ok now as" by (simp_all add: a)
  from serve_inv [OF Cons.prems(1) this(1)] have "store_ok now (serve a st)" by (simp add: a)
  from Cons.IH [OF this c] show ?case by (simp add: a)
qed

lemma serve_keeps_createdAt:
  assumes "unique_ids st" and "find_doc i st = Some d0"
    and "find_doc i (serve (newId, now, ts, req) st) = Some d1"
  shows "map_of d1 ''createdAt'' = map_of d0 ''createdAt''"
proof -
  let ?st' = "serve (newId, now, ts, req) st"
  from serve_cases [OF refl, of newId now ts req st]
  consider (same) "?st' = st"
    | (create) d where "create True newId now (sanitize (body req)) st = Inr (d, ?st')"
    | (update) ident d where "update True ident now (sanitize (body req)) st = Inr (d, ?st')"
    | (delete) ident j where "delete True ident st = Inr (j, ?st')"
    by blast
  then show ?thesis
  proof cases
    case same
    with assms show ?thesis by simp
  next
    case create
    from create_shape [OF this] have "?st' = st @ [d]" by simp
    with find_doc_append [OF assms(2)] assms(3) show ?thesis by simp
  next
    case update
    from update_shape [OF this] obtain d' where f: "find_doc ident st = Some d'"
      and s: "?st' = replace_doc ident d st"
      and k: "\<forall>k. k \<notin> set allowedFields \<and> k \<noteq> ''updatedAt'' \<longrightarrow> map_of d k = map_of d' k"
      by blast
    from f have "has_id ident d'" using find_doc_mem by blast
    with k have h: "has_id ident d" by (simp add: has_id_def system_not_allowed)
    show ?thesis
    proof (cases "i = ident")
      case True
      with assms(2,3) f have "d1 = d" "d0 = d'"
        by (simp_all add: s find_replace [OF h])
      with k show ?thesis by (simp add: system_not_allowed)
    next
      case False
      with assms(2,3) show ?thesis by (simp add: s find_replace [OF h])
    qed
  next
    case delete
    from delete_shape [OF this] have "?st' = remove_doc ident st" .
    with assms show ?thesis by (simp add: find_remove split: if_splits)
  qed
qed

lemma completed_field:
  "validate_field (''status'', JStr ''completed'') = Inr [(''status'', JStr ''completed'')]"
  by (simp add: validate_field_def status_path check_value_def cast_value_def check_enum_def)

text \<open>
  C8, as the schema's timestamps have it. On an existing record,
  \<open>update(id, {status: "completed"})\<close> succeeds; the new record has status
  \<open>completed\<close>, has \<open>updatedAt\<close> equal to the time of the update, and agrees with
  the old one on \<open>createdAt\<close> and on every field other than \<open>status\<close> and
  \<open>updatedAt\<close>; if the old record's timestamps were in order and the clock has not run
  backwards, so are the new one's. Along any sequence of requests during which the clock
  never runs backwards, every stored record keeps \<open>createdAt \<le> updatedAt\<close> and the
  identifiers stay unique; and no request changes the \<open>createdAt\<close> of a record that is
  there before and after it.
\<close>

theorem update_refreshes:
  "(find_doc ident st = Some d \<longrightarrow>
      (\<exists>d'. update True ident now [(''status'', JStr ''completed'')] st
               = Inr (d', replace_doc ident d' st)
            \<and> map_of d' ''status'' = Some (JStr ''completed'')
            \<and> map_of d' ''updatedAt'' = Some (JDate now)
            \<and> map_of d' ''createdAt'' = map_of d ''createdAt''
            \<and> (\<forall>k. k \<noteq> ''status'' \<and> k \<noteq> ''updatedAt'' \<longrightarrow> map_of d' k = map_of d k)
            \<and> (stamps_ok t d \<and> t \<le> now \<longrightarrow> stamps_ok now d')))
   \<and> (store_ok t st \<and> clock_ok t as \<longrightarrow> store_ok (last_time t as) (serve_all as st))
   \<and> (unique_ids st \<and> find_doc i st = Some d0
        \<and> find_doc i (serve (newId, now, ts, req) st) = Some d1 \<longrightarrow>
        map_of d1 ''createdAt'' = map_of d0 ''createdAt'')"
proof -
  let ?d' = "assign ''updatedAt'' (JDate now) (assign ''status'' (JStr ''completed'') d)"
  have 1: "\<exists>d'. update True ident now [(''status'', JStr ''completed'')] st
               = Inr (d', replace_doc ident d' st)
            \<and> map_of d' ''status'' = Some (JStr ''completed'')
            \<and> map_of d' ''updatedAt'' = Some (JDate now)
            \<and> map_of d' ''createdAt'' = map_of d ''createdAt''
            \<and> (\<forall>k. k \<noteq> ''status'' \<and> k \<noteq> ''updatedAt'' \<longrightarrow> map_of d' k = map_of d k)
            \<and> (stamps_ok t d \<and> t \<le> now \<longrightarrow> stamps_ok now d')"
    if f: "find_doc ident st = Some d"
  proof -
    from f have u: "update True ident now [(''status'', JStr ''completed'')] st
        = Inr (?d', replace_doc ident ?d' st)"
      by (simp add: update_def completed_field Let_def schema_timestamps_def apply_fields_def)
    have m: "map_of ?d' = (map_of d)(''status'' \<mapsto> JStr ''completed'',
        ''updatedAt'' \<mapsto> JDate now)"
      by (simp add: map_of_assign)
    have s: "stamps_ok now ?d'" if "stamps_ok t d" "t \<le> now"
    proof -
      from that(1) obtain c0 u0 where "date_of (map_of d ''createdAt'') = Some c0"
        and "c0 \<le> u0" and "u0 \<le> t" using stamps_okD by blast
      with that(2) show ?thesis
        by (intro stamps_okI [where c = c0 and u = now]) (simp_all add: m)
    qed
    from u m s show ?thesis by (intro exI [of _ ?d']) simp
  qed
  have 2: "store_ok t st \<and> clock_ok t as \<longrightarrow> store_ok (last_time t as) (serve_all as st)"
    using serve_all_inv by blast
  have 3: "unique_ids st \<and> find_doc i st = Some d0
        \<and> find_doc i (serve (newId, now, ts, req) st) = Some d1 \<longrightarrow>
        map_of d1 ''createdAt'' = map_of d0 ''createdAt''"
    using serve_keeps_createdAt by blast
  from 1 2 3 show ?thesis by blast
qed

lemma update_p1:
  "update True p1_id t [(''status'', JStr ''completed'')] [p1_doc] = Inr (p1_done t, [p1_done t])"
  by (simp add: update_def completed_field Let_def schema_timestamps_def apply_fields_def
      find_doc_def has_id_def p1_doc_def p1_done_def p1_id_def)

lemma p1_stamps: "stamps_ok 1000 p1_doc" "store_ok 1000 [p1_doc]"
  by (simp_all add: stamps_ok_def store_ok_def unique_ids_def p1_doc_def)

lemma serve_post:
  "serve (p1_id, 1000, ''t0'', post_p1) [] = [p1_doc]"
  by (simp add: serve_def projectRoutes_def post_p1_def handle_create_def create_sanitized
      create_p1)

lemma serve_put:
  "serve (p1_id, t, ''t1'', put_completed) [p1_doc] = [p1_done t]"
proof -
  have "sanitize (body put_completed) = [(''status'', JStr ''completed'')]"
    by (simp add: put_completed_def sanitize_def allowedFields_def)
  then show ?thesis
    using update_p1 [of t]
    by (simp add: serve_def projectRoutes_def handle_update_def valid_p1_id p1_id_def
        put_completed_def)
qed

theorem update_refreshes_witness:
  "find_doc p1_id [p1_doc] = Some p1_doc
   \<and> update True p1_id 2000 [(''status'', JStr ''completed'')] [p1_doc]
       = Inr (p1_done 2000, [p1_done 2000])
   \<and> map_of (p1_done 2000) ''updatedAt'' = Some (JDate 2000)
   \<and> map_of (p1_done 2000) ''createdAt'' = Some (JDate 1000)
   \<and> stamps_ok 1000 p1_doc \<and> stamps_ok 2000 (p1_done 2000)
   \<and> store_ok 1000 [p1_doc] \<and> clock_ok 1000 [(p1_id, 2000, ''t1'', put_completed)]
   \<and> serve_all [(p1_id, 2000, ''t1'', put_completed)] [p1_doc] = [p1_done 2000]
   \<and> store_ok 2000 [p1_done 2000]"
proof -
  have f: "find_doc p1_id [p1_doc] = Some p1_doc"
    by (simp add: find_doc_def has_id_def p1_doc_def p1_id_def)
  have c: "clock_ok 1000 [(p1_id, 2000, ''t1'', put_completed)]" by simp
  have s: "serve_all [(p1_id, 2000, ''t1'', put_completed)] [p1_doc] = [p1_done 2000]"
    by (simp add: serve_put)
  have l: "last_time 1000 [(p1_id, 2000, ''t1'', put_completed)] = 2000" by simp
  have m: "map_of (p1_done 2000) ''updatedAt'' = Some (JDate 2000)"
    "map_of (p1_done 2000) ''createdAt'' = Some (JDate 1000)"
    by (simp_all add: p1_done_def)
  note u = update_refreshes [where ident = p1_id and st = "[p1_doc]" and d = p1_doc
      and now = 2000 and t = 1000 and as = "[(p1_id, 2000, ''t1'', put_completed)]"]
  from u p1_stamps(2) c have "store_ok (last_time 1000 [(p1_id, 2000, ''t1'', put_completed)])
      (serve_all [(p1_id, 2000, ''t1'', put_completed)] [p1_doc])" by blast
  then have o: "store_ok 2000 [p1_done 2000]" by (simp only: s l)
  then have "stamps_ok 2000 (p1_done 2000)" by (simp add: store_ok_def)
  with f update_p1 [of 2000] m p1_stamps c s o show ?thesis by blast
qed

text \<open>
  C8 as stated makes \<open>updatedAt\<close> strictly greater after every such update.
  When the record is created and updated at the same reading of the clock (here 1000),
  \<open>updatedAt\<close> is 1000 before the update and 1000 after it.
\<close>

theorem updatedAt_strict_counterexample:
  "serve_all [(p1_id, 1000, ''t0'', post_p1), (p1_id, 1000, ''t1'', put_completed)] []
     = [p1_done 1000]
   \<and> create True p1_id 1000 p1_input [] = Inr (p1_doc, [p1_doc])
   \<and> update True p1_id 1000 [(''status'', JStr ''completed'')] [p1_doc]
       = Inr (p1_done 1000, [p1_done 1000])
   \<and> map_of p1_doc ''updatedAt'' = Some (JDate 1000)
   \<and> map_of (p1_done 1000) ''updatedAt'' = Some (JDate 1000)"
proof -
  have "serve_all [(p1_id, 1000, ''t0'', post_p1), (p1_id, 1000, ''t1'', put_completed)] []
     = [p1_done 1000]"
    by (simp add: serve_post serve_put)
  moreover have "map_of p1_doc ''updatedAt'' = Some (JDate 1000)"
    "map_of (p1_done 1000) ''updatedAt'' = Some (JDate 1000)"
    by (simp_all add: p1_doc_def p1_done_def)
  ultimately show ?thesis using create_p1 update_p1 [of 1000] by blast
qed

end
